theory Spec2Isabelle
  imports Main "HOL-Library.Sublist" "HOL-Library.AList"
begin

section \<open>Python string operations used by the converter\<close>

text \<open>
  Strings are character lists. The functions below are the Python built-ins the source
  calls: \<^verbatim>\<open>str.lstrip(chars)\<close>, \<^verbatim>\<open>str.replace(old, new)\<close>, \<^verbatim>\<open>str.split(sep)\<close> and
  \<^verbatim>\<open>str.upper()\<close> (on ASCII letters), and \<^verbatim>\<open>str(n)\<close> for a non-negative integer.
\<close>

definition lstrip :: "char \<Rightarrow> string \<Rightarrow> string" where
  "lstrip ch s = dropWhile (\<lambda>c. c = ch) s"

text \<open>
  \<^verbatim>\<open>s.replace(old, new)\<close> scans from the left and replaces every non-overlapping occurrence.
  With an empty \<open>old\<close> Python inserts \<open>new\<close> before every character and at the end.
\<close>

function replace_from :: "string \<Rightarrow> string \<Rightarrow> string \<Rightarrow> string" where
  "replace_from old new [] = []"
| "replace_from old new (c # cs) =
     (if old \<noteq> [] \<and> prefix old (c # cs)
      then new @ replace_from old new (drop (length old) (c # cs))
      else c # replace_from old new cs)"
  by pat_completeness auto
termination
  by (relation "measure (\<lambda>(old, new, s). length s)") (auto simp: neq_Nil_conv)

definition replace :: "string \<Rightarrow> string \<Rightarrow> string \<Rightarrow> string" where
  "replace old new s =
     (if old = [] then new @ concat (map (\<lambda>c. c # new) s) else replace_from old new s)"

text \<open>\<^verbatim>\<open>s.split(sep)\<close> with a one-character separator: never an empty list.\<close>

fun split :: "char \<Rightarrow> string \<Rightarrow> string list" where
  "split sep [] = [[]]"
| "split sep (c # cs) =
     (if c = sep then [] # split sep cs
      else (case split sep cs of
              [] \<Rightarrow> [[c]]
            | p # ps \<Rightarrow> (c # p) # ps))"

definition upper_char :: "char \<Rightarrow> char" where
  "upper_char c =
     (case map_of (zip ''abcdefghijklmnopqrstuvwxyz'' ''ABCDEFGHIJKLMNOPQRSTUVWXYZ'') c of
        None \<Rightarrow> c
      | Some u \<Rightarrow> u)"

definition upper :: "string \<Rightarrow> string" where
  "upper s = map upper_char s"

definition digit_char :: "nat \<Rightarrow> char" where
  "digit_char d = ''0123456789'' ! d"

fun str_nat :: "nat \<Rightarrow> string" where
  "str_nat n = (if n < 10 then [digit_char n] else str_nat (n div 10) @ [digit_char (n mod 10)])"

declare str_nat.simps [simp del]

text \<open>
  \<^verbatim>\<open>a or b\<close> on an \<^verbatim>\<open>Optional[str]\<close>: \<^verbatim>\<open>None\<close> and the empty string are falsy.
\<close>

definition truthy :: "string option \<Rightarrow> bool" where
  "truthy v = (case v of None \<Rightarrow> False | Some s \<Rightarrow> s \<noteq> [])"

definition or_else :: "string option \<Rightarrow> string \<Rightarrow> string" where
  "or_else v d = (case v of None \<Rightarrow> d | Some s \<Rightarrow> if s \<noteq> [] then s else d)"


section \<open>Data model (\<^verbatim>\<open>backend/app/models/schemas.py\<close>)\<close>

datatype HTTPMethod = GET | POST | PUT | DELETE | PATCH

fun HTTPMethod_value :: "HTTPMethod \<Rightarrow> string" where
  "HTTPMethod_value GET = ''get''"
| "HTTPMethod_value POST = ''post''"
| "HTTPMethod_value PUT = ''put''"
| "HTTPMethod_value DELETE = ''delete''"
| "HTTPMethod_value PATCH = ''patch''"

text \<open>
  \<^verbatim>\<open>Dict[str, Any]\<close> values are JSON; a Python dict keeps insertion order, so an object is
  an association list, and \<^verbatim>\<open>d[k] = v\<close> is \<^const>\<open>AList.update\<close> (an existing key keeps
  its position, a new key goes last).
\<close>

datatype json =
    JNull
  | JBool bool
  | JInt int
  | JStr string
  | JArr "json list"
  | JObj "(string \<times> json) list"

type_synonym dict = "(string \<times> json) list"

record Parameter =
  param_name :: string
  param_in :: string
  param_description :: "string option"
  param_required :: bool
  param_schema :: dict

text \<open>
  The request body of an endpoint is read only along
  \<^verbatim>\<open>request_body["content"]["application/json"]["schema"]\<close>, and of that schema only
  \<^verbatim>\<open>properties\<close> (default \<^verbatim>\<open>{}\<close>) and \<^verbatim>\<open>required\<close> (default \<^verbatim>\<open>[]\<close>). The model keeps
  exactly that: \<open>None\<close> stands for a missing or empty body, content or schema (the
  source skips all of them alike), \<open>Some\<close> for a non-empty schema with its two entries.
  The typing is that of a well-formed OpenAPI document.
\<close>

record body_schema =
  bs_properties :: dict
  bs_required :: "string list"

record Endpoint =
  ep_path :: string
  ep_method :: HTTPMethod
  ep_operation_id :: "string option"
  ep_summary :: "string option"
  ep_description :: "string option"
  ep_parameters :: "Parameter list"
  ep_request_body :: "body_schema option"
  ep_responses :: dict
  ep_needs_enrichment :: bool
  ep_enriched_description :: "string option"
  ep_business_context :: "string option"

record input_schema =
  is_type :: string
  is_properties :: dict
  is_required :: "string list"

record endpoint_mapping =
  em_path :: string
  em_method :: string

record MCPTool =
  tool_name :: string
  tool_description :: string
  tool_input_schema :: input_schema
  tool_endpoint_mapping :: endpoint_mapping

record ToolModel =
  tm_api_name :: string
  tm_base_url :: string
  tm_tools :: "MCPTool list"


section \<open>Tool generator (\<^verbatim>\<open>backend/app/services/tool_generator.py\<close>)\<close>

definition path_to_tool_name :: "string \<Rightarrow> HTTPMethod \<Rightarrow> string" where
  "path_to_tool_name path method =
     (let clean_path = replace ''}'' '''' (replace ''{'' '''' (lstrip CHR ''/'' path));
          parts = split CHR ''/'' clean_path;
          method_prefix = HTTPMethod_value method;
          resource = (case parts of [] \<Rightarrow> ''resource'' | p # _ \<Rightarrow> p)
      in method_prefix @ ''_'' @ resource)"

definition param_to_schema :: "Parameter \<Rightarrow> dict" where
  "param_to_schema param =
     (let schema = (if param_schema param \<noteq> [] then param_schema param
                    else [(''type'', JStr ''string'')])
      in case param_description param of
           None \<Rightarrow> schema
         | Some d \<Rightarrow> if d \<noteq> [] then AList.update ''description'' (JStr d) schema
                     else schema)"

fun add_parameters :: "Parameter list \<Rightarrow> dict \<times> string list \<Rightarrow> dict \<times> string list" where
  "add_parameters [] acc = acc"
| "add_parameters (param # ps) (properties, required) =
     add_parameters ps
       (AList.update (param_name param) (JObj (param_to_schema param)) properties,
        if param_required param then required @ [param_name param] else required)"

definition dict_update :: "dict \<Rightarrow> dict \<Rightarrow> dict" where
  "dict_update d other = fold (\<lambda>(k, v) acc. AList.update k v acc) other d"

definition build_input_schema :: "Endpoint \<Rightarrow> input_schema" where
  "build_input_schema endpoint =
     (let (properties, required) = add_parameters (ep_parameters endpoint) ([], []);
          (properties, required) =
             (case ep_request_body endpoint of
                None \<Rightarrow> (properties, required)
              | Some schema \<Rightarrow>
                  (dict_update properties (bs_properties schema),
                   required @ bs_required schema))
      in \<lparr>is_type = ''object'', is_properties = properties, is_required = required\<rparr>)"

definition endpoint_to_tool :: "Endpoint \<Rightarrow> MCPTool" where
  "endpoint_to_tool endpoint =
     (let name = or_else (ep_operation_id endpoint)
                   (path_to_tool_name (ep_path endpoint) (ep_method endpoint));
          description =
            or_else (ep_enriched_description endpoint)
              (or_else (ep_description endpoint)
                 (or_else (ep_summary endpoint)
                    (upper (HTTPMethod_value (ep_method endpoint)) @ '' '' @ ep_path endpoint)));
          description =
            (if truthy (ep_business_context endpoint)
             then description @ [CHR 0x0A, CHR 0x0A] @ ''Business Context: ''
                    @ the (ep_business_context endpoint)
             else description)
      in \<lparr>tool_name = name,
          tool_description = description,
          tool_input_schema = build_input_schema endpoint,
          tool_endpoint_mapping =
            \<lparr>em_path = ep_path endpoint, em_method = HTTPMethod_value (ep_method endpoint)\<rparr>\<rparr>)"

text \<open>
  \<^verbatim>\<open>generate_tools\<close> appends the tool of every endpoint, in order. Its guard
  \<^verbatim>\<open>if tool:\<close> is always true, \<^verbatim>\<open>_endpoint_to_tool\<close> returning an object each time.
\<close>

fun collect_tools :: "Endpoint list \<Rightarrow> MCPTool list \<Rightarrow> MCPTool list" where
  "collect_tools [] tools = tools"
| "collect_tools (endpoint # endpoints) tools =
     collect_tools endpoints (tools @ [endpoint_to_tool endpoint])"

definition generate_tools :: "Endpoint list \<Rightarrow> string \<Rightarrow> string \<Rightarrow> ToolModel" where
  "generate_tools endpoints api_name base_url =
     \<lparr>tm_api_name = api_name, tm_base_url = base_url, tm_tools = collect_tools endpoints []\<rparr>"


text \<open>
  The wording "the first path segment" of a path: what lies between the leading slashes
  and the next slash, the braces of a placeholder left out. It is what the name of a tool
  without operation id is compared with.
\<close>

definition first_path_segment :: "string \<Rightarrow> string" where
  "first_path_segment path =
     filter (\<lambda>c. c \<noteq> CHR ''{'' \<and> c \<noteq> CHR ''}'')
       (takeWhile (\<lambda>c. c \<noteq> CHR ''/'') (dropWhile (\<lambda>c. c = CHR ''/'') path))"


section \<open>Generated server (\<^verbatim>\<open>backend/app/services/server_generator.py\<close>)\<close>

text \<open>
  \<^verbatim>\<open>_generate_server_code\<close> writes, for every tool of the tool model, one
  \<^verbatim>\<open>async def <name>_handler(arguments)\<close> and one \<^verbatim>\<open>if name == "<name>"\<close> line of
  \<^verbatim>\<open>call_tool\<close>. The model is the Python program this text is (the generated
  \<^verbatim>\<open>server.py\<close> that \<^verbatim>\<open>BEFORE_AFTER.md\<close> lists). What the pasting of names and
  texts into that program requires is made explicit below, before \<^verbatim>\<open>call_tool\<close>.

  The outside world of a generated server: the environment variable \<^verbatim>\<open>API_KEY\<close>, Python's
  \<^verbatim>\<open>str\<close> on argument values (of any type \<open>'v\<close>), and the HTTP client. A call of the client
  either returns a response or raises; the handler has no \<^verbatim>\<open>try\<close>, so what the client raises
  leaves the handler. Every call of the client is recorded in \<open>requests\<close>.
\<close>

record 'v request =
  rq_method :: string
  rq_url :: string
  rq_headers :: "(string \<times> string) list"
  rq_params :: "(string \<times> 'v) list option"
  rq_json :: "(string \<times> 'v) list option"

record response =
  status_code :: nat
  resp_text :: string

datatype error =
    ValueError string
  | NameError string
  | SyntaxError string
  | ClientError string

record TextContent =
  tc_type :: string
  tc_text :: string

record 'v runtime =
  API_KEY :: string
  py_str :: "'v \<Rightarrow> string"
  client :: "'v request \<Rightarrow> string + response"

record 'v handled =
  requests :: "'v request list"
  result :: "error + TextContent list"

text \<open>
  \<^verbatim>\<open>for key, value in arguments.items(): path = path.replace(f"{{{key}}}", str(value))\<close>,
  where the f-string \<^verbatim>\<open>f"{{{key}}}"\<close> is the key between braces.
\<close>

definition placeholder :: "string \<Rightarrow> string" where
  "placeholder key = ''{'' @ key @ ''}''"

definition substitute_path :: "('v \<Rightarrow> string) \<Rightarrow> (string \<times> 'v) list \<Rightarrow> string \<Rightarrow> string" where
  "substitute_path str arguments path =
     fold (\<lambda>(key, v) path. replace (placeholder key) (str v) path) arguments path"

text \<open>A key, or parameter name, in which no brace occurs.\<close>

definition brace_free :: "string \<Rightarrow> bool" where
  "brace_free key \<longleftrightarrow> CHR ''{'' \<notin> set key \<and> CHR ''}'' \<notin> set key"

text \<open>One \<^verbatim>\<open>await client.<verb>(...)\<close> followed by the handler's closing \<^verbatim>\<open>return\<close>.\<close>

definition send :: "'v runtime \<Rightarrow> 'v request \<Rightarrow> 'v handled" where
  "send rt req =
     (case client rt req of
        Inl e \<Rightarrow> \<lparr>requests = [req], result = Inl (ClientError e)\<rparr>
      | Inr response \<Rightarrow>
          \<lparr>requests = [req],
           result = Inr [\<lparr>tc_type = ''text'',
                          tc_text = ''Status: '' @ str_nat (status_code response)
                                    @ [CHR 0x0A, CHR 0x0A] @ resp_text response\<rparr>]\<rparr>)"

definition handler :: "'v runtime \<Rightarrow> string \<Rightarrow> MCPTool \<Rightarrow> (string \<times> 'v) list \<Rightarrow> 'v handled" where
  "handler rt API_BASE_URL tool arguments =
     (let method = upper (em_method (tool_endpoint_mapping tool));
          path = substitute_path (py_str rt) arguments (em_path (tool_endpoint_mapping tool));
          url = API_BASE_URL @ path;
          headers = (if API_KEY rt \<noteq> [] then [(''Authorization'', ''Bearer '' @ API_KEY rt)]
                     else [])
      in if method = ''GET'' then
           send rt \<lparr>rq_method = ''GET'', rq_url = url, rq_headers = headers,
                    rq_params = Some arguments, rq_json = None\<rparr>
         else if method = ''POST'' then
           send rt \<lparr>rq_method = ''POST'', rq_url = url, rq_headers = headers,
                    rq_params = None, rq_json = Some arguments\<rparr>
         else if method = ''PUT'' then
           send rt \<lparr>rq_method = ''PUT'', rq_url = url, rq_headers = headers,
                    rq_params = None, rq_json = Some arguments\<rparr>
         else if method = ''DELETE'' then
           send rt \<lparr>rq_method = ''DELETE'', rq_url = url, rq_headers = headers,
                    rq_params = None, rq_json = None\<rparr>
         else
           \<lparr>requests = [],
            result = Inr [\<lparr>tc_type = ''text'', tc_text = ''Unsupported method: '' @ method\<rparr>]\<rparr>)"

text \<open>
  The template pastes the fields of a tool into the text of \<^verbatim>\<open>server.py\<close> as they are.
  The name becomes part of a function name, \<^verbatim>\<open>async def <name>_handler\<close>: when that is
  no Python identifier the file is a syntax error, the server does not start and no call
  is served. Identifiers are taken over ASCII letters, digits and the underscore, as the
  names made from operation ids and paths are; no keyword of Python ends in
  \<^verbatim>\<open>_handler\<close>.
\<close>

definition identifier_start :: "char \<Rightarrow> bool" where
  "identifier_start c \<longleftrightarrow>
     c \<in> set ''abcdefghijklmnopqrstuvwxyzABCDEFGHIJKLMNOPQRSTUVWXYZ_''"

definition identifier_part :: "char \<Rightarrow> bool" where
  "identifier_part c \<longleftrightarrow> identifier_start c \<or> c \<in> set ''0123456789''"

definition is_identifier :: "string \<Rightarrow> bool" where
  "is_identifier s =
     (case s of [] \<Rightarrow> False | c # cs \<Rightarrow> identifier_start c \<and> list_all identifier_part cs)"

definition handler_name :: "MCPTool \<Rightarrow> string" where
  "handler_name tool = tool_name tool @ ''_handler''"

text \<open>
  The description, the path and the method of a tool, and the base URL, are pasted between
  double quotes. The model reads such a literal as the pasted text itself, which holds for
  a text without double quote, backslash and line break; \<open>pasted_plainly\<close> says that of
  a tool model.
\<close>

definition plain_literal :: "string \<Rightarrow> bool" where
  "plain_literal s \<longleftrightarrow>
     CHR 0x22 \<notin> set s \<and> CHR 0x5C \<notin> set s \<and> CHR 0x0A \<notin> set s \<and> CHR 0x0D \<notin> set s"

definition pasted_plainly :: "ToolModel \<Rightarrow> bool" where
  "pasted_plainly tool_model \<longleftrightarrow>
     plain_literal (tm_api_name tool_model) \<and> plain_literal (tm_base_url tool_model)
     \<and> list_all (\<lambda>tool. plain_literal (tool_name tool)
                       \<and> plain_literal (tool_description tool)
                       \<and> plain_literal (em_path (tool_endpoint_mapping tool))
                       \<and> plain_literal (em_method (tool_endpoint_mapping tool)))
           (tm_tools tool_model)"

text \<open>
  The handlers are module-level functions named \<^verbatim>\<open><name>_handler\<close>: of two definitions
  with one name, Python keeps the later. \<^verbatim>\<open>call_tool\<close> compares \<^verbatim>\<open>name\<close> with each tool
  name in turn and calls what \<^verbatim>\<open><name>_handler\<close> is bound to; with no match it raises
  \<^verbatim>\<open>ValueError\<close>.
\<close>

definition handler_bindings :: "MCPTool list \<Rightarrow> string \<Rightarrow> MCPTool option" where
  "handler_bindings tools =
     map_of (rev (map (\<lambda>tool. (handler_name tool, tool)) tools))"

fun dispatch ::
  "'v runtime \<Rightarrow> ToolModel \<Rightarrow> MCPTool list \<Rightarrow> string \<Rightarrow> (string \<times> 'v) list \<Rightarrow> 'v handled" where
  "dispatch rt tool_model [] name arguments =
     \<lparr>requests = [], result = Inl (ValueError (''Unknown tool: '' @ name))\<rparr>"
| "dispatch rt tool_model (tool # rest) name arguments =
     (if name = tool_name tool then
        (case handler_bindings (tm_tools tool_model) (handler_name tool) of
           None \<Rightarrow> \<lparr>requests = [], result = Inl (NameError (handler_name tool))\<rparr>
         | Some bound \<Rightarrow> handler rt (tm_base_url tool_model) bound arguments)
      else dispatch rt tool_model rest name arguments)"

text \<open>
  A call of a tool of the generated server. The file is read first: at the first handler
  name that is no identifier it is a syntax error and nothing is served.
\<close>

definition server_loads :: "ToolModel \<Rightarrow> bool" where
  "server_loads tool_model =
     list_all (\<lambda>tool. is_identifier (handler_name tool)) (tm_tools tool_model)"

definition call_tool ::
  "'v runtime \<Rightarrow> ToolModel \<Rightarrow> string \<Rightarrow> (string \<times> 'v) list \<Rightarrow> 'v handled" where
  "call_tool rt tool_model name arguments =
     (case find (\<lambda>tool. \<not> is_identifier (handler_name tool)) (tm_tools tool_model) of
        Some tool \<Rightarrow> \<lparr>requests = [], result = Inl (SyntaxError (handler_name tool))\<rparr>
      | None \<Rightarrow> dispatch rt tool_model (tm_tools tool_model) name arguments)"


section \<open>Orchestration engine\<close>

text \<open>
  The runtime that executes composite tools (\<^verbatim>\<open>_handle_composite_tool\<close> of the generic
  server) is described by the documents of the repository but its code is not among the
  sources. The definitions of this section follow the specification, sections 3, 4.1 and
  4.3, sentence by sentence.
\<close>

text \<open>
  Modelled from the spec: the Tool Registry of section 4.1, whose code is missing from the
  sources: the loaded descriptors in insertion order. A standard tool descriptor has the
  fields of \<^typ>\<open>MCPTool\<close> (section 6).
\<close>

type_synonym registry = "MCPTool list"

text \<open>
  Modelled from the spec: \<open>lookup(name)\<close> of the Tool Registry (section 4.1), missing
  from the sources: the descriptor of that name, or \<open>None\<close> for NotFound.
\<close>

definition lookup :: "registry \<Rightarrow> string \<Rightarrow> MCPTool option" where
  "lookup registry name = find (\<lambda>descriptor. tool_name descriptor = name) registry"

text \<open>
  Modelled from the spec: \<open>listAll()\<close> of the Tool Registry (section 4.1), missing from
  the sources: all descriptors in insertion order.
\<close>

definition listAll :: "registry \<Rightarrow> MCPTool list" where
  "listAll registry = registry"

text \<open>
  Modelled from the spec: the CompositeToolDescriptor of section 3, produced by the composite
  tool builder, which is missing from the sources.
\<close>

record CompositeToolDescriptor =
  ct_name :: string
  ct_description :: string
  ct_use_case_description :: string
  ct_orchestration_logic :: string
  ct_input_schema :: input_schema
  ct_endpoint_mappings :: "(string \<times> string \<times> string) list"

text \<open>
  Modelled from the spec: the result of \<open>HTTP Invoker.invoke\<close> as the engine receives it
  (section 4.2 and the TOOL\_EXECUTING state of section 4.3), the invoker of the engine
  being missing from the sources: a status code with a body text, which by section 4.2
  also stands for a network failure or a timeout, or an argument error.
\<close>

datatype invoke_result =
    Response nat string
  | ArgumentError string

text \<open>
  Modelled from the spec: one tool invocation requested by the reasoning model (section
  4.3), missing from the sources: a named tool with arguments, and the call identifier
  that correlates request and result.
\<close>

record 'v tool_call =
  call_id :: string
  call_name :: string
  call_arguments :: "(string \<times> 'v) list"

text \<open>
  Modelled from the spec: the content of a tool-result turn (section 4.3), missing from the
  sources: what the invoker returned, or the error result of an unknown tool name.
\<close>

datatype tool_result =
    Invoked invoke_result
  | UnknownTool string

text \<open>
  Modelled from the spec: the turns of a transcript (section 3, OrchestrationRun), missing
  from the sources. The system instruction carries the use case, the orchestration hint,
  the caller's arguments and the available tools (INIT of section 4.3); a tool result
  carries the identifier of its call.
\<close>

datatype 'v turn =
    SystemInstruction string string "(string \<times> 'v) list" "MCPTool list"
  | ToolRequest "'v tool_call list"
  | ToolResult string tool_result
  | FinalAnswer string

text \<open>
  Modelled from the spec: the answers of the reasoning model (REASONING state of section
  4.3), a service outside the repository: a request for one or more tool calls, a final
  text, or a failure of the service itself.
\<close>

datatype 'v model_response =
    ToolCalls "'v tool_call" "'v tool_call list"
  | Answer string
  | ServiceError string

text \<open>
  Modelled from the spec: the terminal states of the state machine of section 4.3, missing
  from the sources.
\<close>

datatype terminal_state = DONE | LIMIT_EXCEEDED | FAILED

text \<open>
  Modelled from the spec: the OrchestrationRun record of section 3, missing from the
  sources; the goal is the use case description with the orchestration hint, and
  \<open>terminal_state\<close> is \<open>None\<close> until the run ends.
\<close>

record 'v OrchestrationRun =
  goal :: "string \<times> string"
  input_arguments :: "(string \<times> 'v) list"
  transcript :: "'v turn list"
  iteration_count :: nat
  terminal_state :: "terminal_state option"

text \<open>
  Modelled from the spec: the configured maximum of the reference behaviour (section 3),
  the constant being missing from the sources.
\<close>

definition max_iterations :: nat where
  "max_iterations = 20"

text \<open>
  Modelled from the spec: the INIT state of section 4.3, missing from the sources: the
  initial context and \<open>iteration_count = 0\<close>.
\<close>

definition init ::
  "CompositeToolDescriptor \<Rightarrow> (string \<times> 'v) list \<Rightarrow> registry \<Rightarrow> 'v OrchestrationRun" where
  "init composite arguments registry =
     \<lparr>goal = (ct_use_case_description composite, ct_orchestration_logic composite),
      input_arguments = arguments,
      transcript = [SystemInstruction (ct_use_case_description composite)
                      (ct_orchestration_logic composite) arguments (listAll registry)],
      iteration_count = 0,
      terminal_state = None\<rparr>"

text \<open>
  Modelled from the spec: the handling of one requested invocation in the TOOL\_EXECUTING
  state of section 4.3, missing from the sources: the tool is looked up by name in the
  registry; an unknown name gives an error result for that call, a known one is invoked
  through the HTTP invoker.
\<close>

definition execute_call ::
  "registry \<Rightarrow> (MCPTool \<Rightarrow> (string \<times> 'v) list \<Rightarrow> invoke_result) \<Rightarrow> 'v tool_call \<Rightarrow> tool_result" where
  "execute_call registry invoke call =
     (case lookup registry (call_name call) of
        None \<Rightarrow> UnknownTool (call_name call)
      | Some descriptor \<Rightarrow> Invoked (invoke descriptor (call_arguments call)))"

text \<open>
  Modelled from the spec: the two transitions out of the TOOL\_EXECUTING state of section
  4.3, missing from the sources: back to REASONING, or to LIMIT\_EXCEEDED.
\<close>

datatype 'a next_state = ToReasoning 'a | ToLimitExceeded 'a

text \<open>
  Modelled from the spec: the TOOL\_EXECUTING state of section 4.3, missing from the
  sources. For each requested invocation, in the order given: the counter is incremented;
  if it exceeds the maximum the run goes to LIMIT\_EXCEEDED at once, however many calls
  were requested; otherwise the call is executed and its result is appended as a
  tool-result turn. After the last one the run returns to REASONING.
\<close>

fun tool_executing ::
  "nat \<Rightarrow> registry \<Rightarrow> (MCPTool \<Rightarrow> (string \<times> 'v) list \<Rightarrow> invoke_result) \<Rightarrow>
   'v tool_call list \<Rightarrow> 'v OrchestrationRun \<Rightarrow> 'v OrchestrationRun next_state" where
  "tool_executing maximum registry invoke [] run = ToReasoning run"
| "tool_executing maximum registry invoke (call # calls) run =
     (let run = run\<lparr>iteration_count := iteration_count run + 1\<rparr>
      in if iteration_count run > maximum then ToLimitExceeded run
         else tool_executing maximum registry invoke calls
                (run\<lparr>transcript := transcript run
                        @ [ToolResult (call_id call) (execute_call registry invoke call)]\<rparr>))"

text \<open>
  Modelled from the spec: the REASONING state of section 4.3 with its transitions to DONE,
  LIMIT\_EXCEEDED and FAILED, missing from the sources. The transcript is sent to the
  reasoning model; tool requests are recorded and executed, a final text ends the run in
  DONE with that answer, a failure of the reasoning service ends it in FAILED. The result
  is the finished run and the answer, if any.
\<close>

function reasoning ::
  "nat \<Rightarrow> ('v turn list \<Rightarrow> 'v model_response) \<Rightarrow> registry \<Rightarrow>
   (MCPTool \<Rightarrow> (string \<times> 'v) list \<Rightarrow> invoke_result) \<Rightarrow>
   'v OrchestrationRun \<Rightarrow> 'v OrchestrationRun \<times> string option" where
  "reasoning maximum model registry invoke run =
     (case model (transcript run) of
        ServiceError e \<Rightarrow> (run\<lparr>terminal_state := Some FAILED\<rparr>, None)
      | Answer a \<Rightarrow>
          (run\<lparr>transcript := transcript run @ [FinalAnswer a],
               terminal_state := Some DONE\<rparr>, Some a)
      | ToolCalls call calls \<Rightarrow>
          (case tool_executing maximum registry invoke (call # calls)
                  (run\<lparr>transcript := transcript run @ [ToolRequest (call # calls)]\<rparr>) of
             ToLimitExceeded run' \<Rightarrow> (run'\<lparr>terminal_state := Some LIMIT_EXCEEDED\<rparr>, None)
           | ToReasoning run' \<Rightarrow> reasoning maximum model registry invoke run'))"
  by pat_completeness auto
termination
proof (relation "measure (\<lambda>(maximum, model, registry, invoke, run).
                   Suc maximum - iteration_count run)")
  show "wf (measure (\<lambda>(maximum, model, registry, invoke, run).
              Suc maximum - iteration_count (run :: 'v OrchestrationRun)))"
    by simp
next
  fix maximum :: nat and model :: "'v turn list \<Rightarrow> 'v model_response"
    and registry :: registry
    and invoke :: "MCPTool \<Rightarrow> (string \<times> 'v) list \<Rightarrow> invoke_result"
    and run :: "'v OrchestrationRun" and call calls and run' :: "'v OrchestrationRun"
  assume ex: "tool_executing maximum registry invoke (call # calls)
                (run\<lparr>transcript := transcript run @ [ToolRequest (call # calls)]\<rparr>)
              = ToReasoning run'"
  have counted: "iteration_count r' = iteration_count r + length cs
                 \<and> iteration_count r' \<le> max maximum (iteration_count r)"
    if "tool_executing maximum registry invoke cs r = ToReasoning r'"
    for cs and r r' :: "'v OrchestrationRun"
    using that
  proof (induction cs arbitrary: r)
    case Nil
    then show ?case by simp
  next
    case (Cons c cs)
    define r1 where "r1 = r\<lparr>iteration_count := iteration_count r + 1,
                              transcript := transcript r
                                @ [ToolResult (call_id c) (execute_call registry invoke c)]\<rparr>"
    from Cons.prems have le: "iteration_count r + 1 \<le> maximum"
      by (simp add: Let_def split: if_splits)
    with Cons.prems have "tool_executing maximum registry invoke cs r1 = ToReasoning r'"
      by (simp add: Let_def r1_def)
    from Cons.IH [OF this] le show ?case
      by (simp add: r1_def)
  qed
  from counted [OF ex]
  have "iteration_count run < iteration_count run'"
    and "iteration_count run' \<le> max maximum (iteration_count run)"
    by simp_all
  then show "((maximum, model, registry, invoke, run'),
               (maximum, model, registry, invoke, run))
        \<in> measure (\<lambda>(maximum, model, registry, invoke, run).
                     Suc maximum - iteration_count run)"
    by auto
qed

text \<open>
  Modelled from the spec: one composite-tool invocation, INIT followed by the loop, missing
  from the sources.
\<close>

definition orchestrate ::
  "nat \<Rightarrow> ('v turn list \<Rightarrow> 'v model_response) \<Rightarrow> registry \<Rightarrow>
   (MCPTool \<Rightarrow> (string \<times> 'v) list \<Rightarrow> invoke_result) \<Rightarrow>
   CompositeToolDescriptor \<Rightarrow> (string \<times> 'v) list \<Rightarrow> 'v OrchestrationRun \<times> string option" where
  "orchestrate maximum model registry invoke composite arguments =
     reasoning maximum model registry invoke (init composite arguments registry)"


text \<open>
  The number of tool invocations a transcript records: every executed call leaves exactly
  one tool-result turn.
\<close>

fun is_tool_result :: "'v turn \<Rightarrow> bool" where
  "is_tool_result (ToolResult identifier outcome) = True"
| "is_tool_result other = False"

definition tool_results :: "'v turn list \<Rightarrow> nat" where
  "tool_results turns = length (filter is_tool_result turns)"


section \<open>Example inputs\<close>

definition list_products :: Endpoint where
  "list_products =
     \<lparr>ep_path = ''/products'', ep_method = GET, ep_operation_id = None, ep_summary = None,
      ep_description = None, ep_parameters = [], ep_request_body = None, ep_responses = [],
      ep_needs_enrichment = True, ep_enriched_description = None,
      ep_business_context = None\<rparr>"

definition get_product :: Endpoint where
  "get_product = list_products\<lparr>ep_path := ''/products/{id}''\<rparr>"

definition get_user :: Endpoint where
  "get_user = list_products\<lparr>ep_path := ''/users/{id}'', ep_operation_id := Some ''getUser''\<rparr>"

definition get_person :: Endpoint where
  "get_person = list_products\<lparr>ep_path := ''/people/{id}'', ep_operation_id := Some ''getUser''\<rparr>"

definition list_user_profiles :: Endpoint where
  "list_user_profiles = list_products\<lparr>ep_path := ''/user-profiles''\<rparr>"

definition getCustomer :: MCPTool where
  "getCustomer =
     \<lparr>tool_name = ''getCustomer'', tool_description = ''Get a customer'',
      tool_input_schema =
        \<lparr>is_type = ''object'',
         is_properties = [(''id'', JObj [(''type'', JStr ''string'')])],
         is_required = [''id'']\<rparr>,
      tool_endpoint_mapping = \<lparr>em_path = ''/customers/{id}'', em_method = ''get''\<rparr>\<rparr>"

definition patchCustomer :: MCPTool where
  "patchCustomer =
     getCustomer\<lparr>tool_name := ''patchCustomer'',
                 tool_endpoint_mapping :=
                   \<lparr>em_path = ''/customers/{id}'', em_method = ''patch''\<rparr>\<rparr>"

definition deleteCustomer :: MCPTool where
  "deleteCustomer =
     getCustomer\<lparr>tool_name := ''deleteCustomer'',
                 tool_endpoint_mapping :=
                   \<lparr>em_path = ''/customers/{id}'', em_method = ''delete''\<rparr>\<rparr>"

definition updateCustomer :: MCPTool where
  "updateCustomer =
     getCustomer\<lparr>tool_name := ''updateCustomer'',
                 tool_endpoint_mapping :=
                   \<lparr>em_path = ''/customers/{id}'', em_method = ''put''\<rparr>\<rparr>"

definition createOrder :: MCPTool where
  "createOrder =
     \<lparr>tool_name = ''createOrder'', tool_description = ''Create an order'',
      tool_input_schema =
        \<lparr>is_type = ''object'',
         is_properties = [(''customerId'', JObj [(''type'', JStr ''string'')]),
                          (''note'', JObj [(''type'', JStr ''string'')])],
         is_required = [''customerId'']\<rparr>,
      tool_endpoint_mapping = \<lparr>em_path = ''/orders'', em_method = ''post''\<rparr>\<rparr>"

definition getOrder :: MCPTool where
  "getOrder =
     \<lparr>tool_name = ''getOrder'', tool_description = ''Get one order of a customer'',
      tool_input_schema =
        \<lparr>is_type = ''object'',
         is_properties = [(''id'', JObj [(''type'', JStr ''string'')]),
                          (''orderId'', JObj [(''type'', JStr ''string'')])],
         is_required = [''id'', ''orderId'']\<rparr>,
      tool_endpoint_mapping =
        \<lparr>em_path = ''/customers/{id}/orders/{orderId}'', em_method = ''get''\<rparr>\<rparr>"

text \<open>Argument values that are strings, on which \<^verbatim>\<open>str\<close> is the identity.\<close>

definition str_of_str :: "string \<Rightarrow> string" where
  "str_of_str s = s"

definition ok_client :: "string request \<Rightarrow> string + response" where
  "ok_client req = Inr \<lparr>status_code = 200, resp_text = ''{}''\<rparr>"

definition broken_client :: "string request \<Rightarrow> string + response" where
  "broken_client req = Inr \<lparr>status_code = 500, resp_text = ''Internal Server Error''\<rparr>"

definition unreachable_client :: "string request \<Rightarrow> string + response" where
  "unreachable_client req = Inl ''ConnectError''"

definition demo_runtime :: "string runtime" where
  "demo_runtime = \<lparr>API_KEY = [], py_str = str_of_str, client = ok_client\<rparr>"

definition broken_runtime :: "string runtime" where
  "broken_runtime = \<lparr>API_KEY = [], py_str = str_of_str, client = broken_client\<rparr>"

definition offline_runtime :: "string runtime" where
  "offline_runtime = \<lparr>API_KEY = [], py_str = str_of_str, client = unreachable_client\<rparr>"


text \<open>Inputs of the orchestration engine: a registry, invokers and reasoning-model stubs.\<close>

definition listOrders :: MCPTool where
  "listOrders =
     \<lparr>tool_name = ''listOrders'', tool_description = ''List the orders of a customer'',
      tool_input_schema =
        \<lparr>is_type = ''object'',
         is_properties = [(''customerId'', JObj [(''type'', JStr ''string'')])],
         is_required = []\<rparr>,
      tool_endpoint_mapping = \<lparr>em_path = ''/orders'', em_method = ''get''\<rparr>\<rparr>"

definition demo_registry :: registry where
  "demo_registry = [getCustomer, listOrders]"

definition customer_orders :: CompositeToolDescriptor where
  "customer_orders =
     \<lparr>ct_name = ''customer_with_orders'', ct_description = ''Customer and orders'',
      ct_use_case_description = ''get customer then their orders'',
      ct_orchestration_logic = ''get customer, then get orders'',
      ct_input_schema = \<lparr>is_type = ''object'', is_properties = [], is_required = []\<rparr>,
      ct_endpoint_mappings = [(''/customers/{id}'', ''get'', ''customer''),
                              (''/orders'', ''get'', ''orders'')]\<rparr>"

definition ok_invoke :: "MCPTool \<Rightarrow> (string \<times> string) list \<Rightarrow> invoke_result" where
  "ok_invoke descriptor arguments = Response 200 (tool_name descriptor)"

definition broken_invoke :: "MCPTool \<Rightarrow> (string \<times> string) list \<Rightarrow> invoke_result" where
  "broken_invoke descriptor arguments = Response 500 ''Internal Server Error''"

definition call_getCustomer :: "string tool_call" where
  "call_getCustomer =
     \<lparr>call_id = ''call-1'', call_name = ''getCustomer'', call_arguments = [(''id'', ''42'')]\<rparr>"

definition call_listOrders :: "string tool_call" where
  "call_listOrders =
     \<lparr>call_id = ''call-2'', call_name = ''listOrders'',
      call_arguments = [(''customerId'', ''42'')]\<rparr>"

definition call_fooBar :: "string tool_call" where
  "call_fooBar = \<lparr>call_id = ''call-0'', call_name = ''fooBar'', call_arguments = []\<rparr>"


text \<open>
  Reasoning-model stubs: one that asks for many calls in a single turn, one that first
  asks for a tool that does not exist, one that asks for an unknown and a known tool in
  one turn, and one whose single turn asks for more calls than the budget holds, the last
  of them for an unknown tool.
\<close>

definition batching_model :: "nat \<Rightarrow> string turn list \<Rightarrow> string model_response" where
  "batching_model n turns =
     (if tool_results turns = 0 then ToolCalls call_getCustomer (replicate n call_listOrders)
      else Answer ''done'')"

definition adapting_model :: "string turn list \<Rightarrow> string model_response" where
  "adapting_model turns =
     (if tool_results turns = 0 then ToolCalls call_fooBar []
      else if tool_results turns = 1 then ToolCalls call_getCustomer []
      else Answer ''done'')"

definition mixed_model :: "string turn list \<Rightarrow> string model_response" where
  "mixed_model turns =
     (if tool_results turns = 0 then ToolCalls call_fooBar [call_getCustomer]
      else Answer ''done'')"

definition overflowing_model :: "string turn list \<Rightarrow> string model_response" where
  "overflowing_model turns =
     (if tool_results turns = 0
      then ToolCalls call_getCustomer (replicate 24 call_listOrders @ [call_fooBar])
      else Answer ''done'')"

text \<open>The run of the scenarios, at its start and after a turn with two calls.\<close>

definition run_start :: "string OrchestrationRun" where
  "run_start = init customer_orders [(''id'', ''42'')] demo_registry"

definition run_after_batch :: "string OrchestrationRun" where
  "run_after_batch =
     run_start\<lparr>iteration_count := 2,
               transcript := transcript run_start
                 @ [ToolRequest [call_fooBar, call_getCustomer],
                    ToolResult (call_id call_fooBar) (UnknownTool (call_name call_fooBar)),
                    ToolResult (call_id call_getCustomer)
                      (Invoked (Response 500 ''Internal Server Error''))]\<rparr>"

text \<open>The same run after a turn that asks for the unknown tool, and after the next turn.\<close>

definition run_after_unknown :: "string OrchestrationRun" where
  "run_after_unknown =
     run_start\<lparr>iteration_count := 1,
               transcript := transcript run_start
                 @ [ToolRequest [call_fooBar],
                    ToolResult (call_id call_fooBar) (UnknownTool (call_name call_fooBar))]\<rparr>"

definition run_after_valid :: "string OrchestrationRun" where
  "run_after_valid =
     run_after_unknown\<lparr>iteration_count := 2,
               transcript := transcript run_after_unknown
                 @ [ToolRequest [call_getCustomer],
                    ToolResult (call_id call_getCustomer)
                      (Invoked (Response 500 ''Internal Server Error''))]\<rparr>"


section \<open>Properties of the tool generator\<close>

lemma replace_from_single: "replace_from [ch] [] s = filter (\<lambda>c. c \<noteq> ch) s"
  by (induction s) auto

lemma replace_single: "replace [ch] [] s = filter (\<lambda>c. c \<noteq> ch) s"
  by (simp add: replace_def replace_from_single)

lemma split_not_Nil: "split sep s \<noteq> []"
  by (induction s) (auto split: list.splits)

lemma hd_split: "hd (split sep s) = takeWhile (\<lambda>c. c \<noteq> sep) s"
  by (induction s) (auto split: list.splits simp: split_not_Nil)

lemma takeWhile_filter_keep:
  "P sep \<Longrightarrow>
   takeWhile (\<lambda>c. c \<noteq> sep) (filter P s) = filter P (takeWhile (\<lambda>c. c \<noteq> sep) s)"
  by (induction s) auto

lemma path_to_tool_name_eq:
  "path_to_tool_name path method = HTTPMethod_value method @ ''_'' @ first_path_segment path"
proof -
  let ?clean = "replace ''}'' '''' (replace ''{'' '''' (lstrip CHR ''/'' path))"
  have clean: "?clean = filter (\<lambda>c. c \<noteq> CHR ''{'' \<and> c \<noteq> CHR ''}'')
                          (dropWhile (\<lambda>c. c = CHR ''/'') path)"
    by (simp add: replace_single lstrip_def conj_commute)
  obtain p ps where parts: "split CHR ''/'' ?clean = p # ps"
    using split_not_Nil by (cases "split CHR ''/'' ?clean") auto
  have "p = hd (split CHR ''/'' ?clean)"
    using parts by simp
  also have "\<dots> = takeWhile (\<lambda>c. c \<noteq> CHR ''/'') ?clean"
    by (rule hd_split)
  also have "\<dots> = first_path_segment path"
    unfolding clean first_path_segment_def by (rule takeWhile_filter_keep) simp
  finally show ?thesis
    using parts by (simp add: path_to_tool_name_def Let_def)
qed

lemma collect_tools_eq: "collect_tools es acc = acc @ map endpoint_to_tool es"
  by (induction es arbitrary: acc) auto

lemma tm_tools_generate_tools:
  "tm_tools (generate_tools endpoints api_name base_url) = map endpoint_to_tool endpoints"
  by (simp add: generate_tools_def collect_tools_eq)

lemma tool_name_fallback:
  "\<not> truthy (ep_operation_id e) \<Longrightarrow>
   tool_name (endpoint_to_tool e) = path_to_tool_name (ep_path e) (ep_method e)"
  by (auto simp: endpoint_to_tool_def Let_def truthy_def or_else_def split: option.splits)

text \<open>
  Claim C10. An endpoint without operation id is named by its HTTP method and its first
  path segment only; two such endpoints with the same method and the same first segment
  get the same name, and \<open>generate_tools\<close>, which keeps the tool of every endpoint
  and checks nothing, returns a tool model with a duplicate name.
\<close>

theorem path_tool_names_collide:
  assumes "\<not> truthy (ep_operation_id e1)" and "\<not> truthy (ep_operation_id e2)"
    and "ep_method e1 = ep_method e2"
    and "first_path_segment (ep_path e1) = first_path_segment (ep_path e2)"
  shows "tool_name (endpoint_to_tool e1)
           = HTTPMethod_value (ep_method e1) @ ''_'' @ first_path_segment (ep_path e1)
       \<and> tool_name (endpoint_to_tool e2) = tool_name (endpoint_to_tool e1)
       \<and> tm_tools (generate_tools (es1 @ e1 # es2 @ e2 # es3) api_name base_url)
           = map endpoint_to_tool (es1 @ e1 # es2 @ e2 # es3)
       \<and> \<not> distinct (map tool_name
             (tm_tools (generate_tools (es1 @ e1 # es2 @ e2 # es3) api_name base_url)))"
proof -
  have n1: "tool_name (endpoint_to_tool e1)
              = HTTPMethod_value (ep_method e1) @ ''_'' @ first_path_segment (ep_path e1)"
    using assms(1) by (simp add: tool_name_fallback path_to_tool_name_eq)
  have n2: "tool_name (endpoint_to_tool e2) = tool_name (endpoint_to_tool e1)"
    using assms by (simp add: tool_name_fallback path_to_tool_name_eq)
  have "\<not> distinct (map tool_name (map endpoint_to_tool (es1 @ e1 # es2 @ e2 # es3)))"
    using n2 by simp
  with n1 n2 show ?thesis
    by (simp only: tm_tools_generate_tools simp_thms)
qed

theorem path_tool_names_collide_witness:
  "\<not> truthy (ep_operation_id list_products) \<and> \<not> truthy (ep_operation_id get_product)
   \<and> ep_method list_products = ep_method get_product
   \<and> first_path_segment (ep_path list_products) = first_path_segment (ep_path get_product)
   \<and> tool_name (endpoint_to_tool list_products) = ''get_products''
   \<and> tool_name (endpoint_to_tool get_product) = ''get_products''
   \<and> \<not> distinct (map tool_name
         (tm_tools (generate_tools [list_products, get_product] ''shop'' ''http://api'')))"
proof -
  have h: "\<not> truthy (ep_operation_id list_products)" "\<not> truthy (ep_operation_id get_product)"
    "ep_method list_products = ep_method get_product"
    "first_path_segment (ep_path list_products) = first_path_segment (ep_path get_product)"
    by (simp_all add: list_products_def get_product_def truthy_def first_path_segment_def)
  have seg: "first_path_segment (ep_path list_products) = ''products''"
    by (simp add: list_products_def first_path_segment_def)
  from path_tool_names_collide [OF h, of "[]" "[]" "[]" "''shop''" "''http://api''"]
  show ?thesis
    using h seg by (simp add: list_products_def)
qed


section \<open>Properties of the generated server\<close>

lemma upper_method_value:
  "upper ''get'' = ''GET''"
  "upper ''post'' = ''POST''"
  "upper ''put'' = ''PUT''"
  "upper ''delete'' = ''DELETE''"
  "upper ''patch'' = ''PATCH''"
  by (simp_all add: upper_def upper_char_def)

lemma handler_by_method:
  assumes "em_method (tool_endpoint_mapping tool) = HTTPMethod_value m"
  shows "handler rt base tool arguments =
     (let url = base @ substitute_path (py_str rt) arguments
                         (em_path (tool_endpoint_mapping tool));
          headers = (if API_KEY rt \<noteq> [] then [(''Authorization'', ''Bearer '' @ API_KEY rt)]
                     else [])
      in case m of
           GET \<Rightarrow> send rt \<lparr>rq_method = ''GET'', rq_url = url, rq_headers = headers,
                            rq_params = Some arguments, rq_json = None\<rparr>
         | POST \<Rightarrow> send rt \<lparr>rq_method = ''POST'', rq_url = url, rq_headers = headers,
                             rq_params = None, rq_json = Some arguments\<rparr>
         | PUT \<Rightarrow> send rt \<lparr>rq_method = ''PUT'', rq_url = url, rq_headers = headers,
                            rq_params = None, rq_json = Some arguments\<rparr>
         | DELETE \<Rightarrow> send rt \<lparr>rq_method = ''DELETE'', rq_url = url, rq_headers = headers,
                               rq_params = None, rq_json = None\<rparr>
         | PATCH \<Rightarrow>
             \<lparr>requests = [],
              result = Inr [\<lparr>tc_type = ''text'',
                             tc_text = ''Unsupported method: PATCH''\<rparr>]\<rparr>)"
  using assms by (cases m) (simp_all add: handler_def Let_def upper_method_value)

lemma requests_send: "requests (send rt req) = [req]"
  by (simp add: send_def split: sum.splits)

lemma handler_bindings_Some:
  assumes "tool \<in> set tools"
  shows "\<exists>bound \<in> set tools. tool_name bound = tool_name tool
           \<and> handler_bindings tools (handler_name tool) = Some bound"
proof -
  let ?al = "rev (map (\<lambda>tool. (handler_name tool, tool)) tools)"
  have "handler_name tool \<in> fst ` set ?al"
    using assms by force
  then have "map_of ?al (handler_name tool) \<noteq> None"
    by (simp only: map_of_eq_None_iff not_not)
  then obtain bound where b: "map_of ?al (handler_name tool) = Some bound"
    by blast
  then have "(handler_name tool, bound) \<in> set ?al"
    by (rule map_of_SomeD)
  then have "bound \<in> set tools" and "tool_name bound = tool_name tool"
    by (auto simp: handler_name_def)
  with b show ?thesis
    by (auto simp: handler_bindings_def)
qed

lemma dispatch_found:
  assumes "name \<in> tool_name ` set ts" and "set ts \<subseteq> set (tm_tools tm)"
  shows "\<exists>bound \<in> set (tm_tools tm). tool_name bound = name
           \<and> dispatch rt tm ts name arguments = handler rt (tm_base_url tm) bound arguments"
  using assms
proof (induction ts)
  case Nil
  then show ?case by simp
next
  case (Cons t ts)
  show ?case
  proof (cases "name = tool_name t")
    case True
    from Cons.prems have "t \<in> set (tm_tools tm)" by simp
    from handler_bindings_Some [OF this] True show ?thesis
      by auto
  next
    case False
    with Cons show ?thesis by auto
  qed
qed

lemma call_tool_loaded:
  "server_loads tm \<Longrightarrow>
   call_tool rt tm name arguments = dispatch rt tm (tm_tools tm) name arguments"
  by (simp add: call_tool_def server_loads_def list_all_iff find_None_iff [THEN iffD2])

lemma call_tool_not_loaded:
  "\<not> server_loads tm \<Longrightarrow>
   requests (call_tool rt tm name arguments) = [] \<and> isl (result (call_tool rt tm name arguments))"
  by (cases "find (\<lambda>tool. \<not> is_identifier (handler_name tool)) (tm_tools tm)")
    (auto simp: call_tool_def server_loads_def list_all_iff find_None_iff)

lemma call_tool_served:
  assumes "server_loads tm" and "tool \<in> set (tm_tools tm)"
  shows "\<exists>bound \<in> set (tm_tools tm). tool_name bound = tool_name tool
           \<and> call_tool rt tm (tool_name tool) arguments
               = handler rt (tm_base_url tm) bound arguments"
  unfolding call_tool_loaded [OF assms(1)] using assms(2) by (intro dispatch_found) auto

lemma dispatch_unknown:
  "name \<notin> tool_name ` set ts \<Longrightarrow>
   dispatch rt tm ts name arguments
     = \<lparr>requests = [], result = Inl (ValueError (''Unknown tool: '' @ name))\<rparr>"
  by (induction ts) auto

lemma call_tool_unknown:
  "server_loads tm \<Longrightarrow> name \<notin> tool_name ` set (tm_tools tm) \<Longrightarrow>
   call_tool rt tm name arguments
     = \<lparr>requests = [], result = Inl (ValueError (''Unknown tool: '' @ name))\<rparr>"
  by (simp add: call_tool_loaded dispatch_unknown)

text \<open>
  A name made by the tool generator need not be an identifier: the endpoint
  \<^verbatim>\<open>GET /user-profiles\<close> without operation id is named \<^verbatim>\<open>get_user-profiles\<close>, and the
  server generated for it is a syntax error that serves nothing.
\<close>

lemma hyphenated_name_does_not_load:
  "tool_name (endpoint_to_tool list_user_profiles) = ''get_user-profiles''
   \<and> \<not> server_loads (generate_tools [list_user_profiles] ''app'' ''http://api'')
   \<and> call_tool demo_runtime (generate_tools [list_user_profiles] ''app'' ''http://api'')
        ''get_user-profiles'' []
       = \<lparr>requests = [], result = Inl (SyntaxError ''get_user-profiles_handler'')\<rparr>"
  by code_simp


subsection \<open>Placement of the arguments\<close>

text \<open>
  Claim C4, as stated, at \<^verbatim>\<open>GET /customers/{id}\<close> called with \<^verbatim>\<open>{"id": "123"}\<close>: the claim
  wants an empty query string, \<open>id\<close> being consumed by the path. The handler requests
  \<^verbatim>\<open>/customers/123\<close> and passes \<open>id\<close> as a query parameter as well. Likewise
  \<^verbatim>\<open>PUT /customers/{id}\<close> called with \<open>id\<close> and \<open>name\<close> sends both in its JSON body.
\<close>

theorem consumed_argument_sent_as_query:
  "handler demo_runtime ''http://api'' getCustomer [(''id'', ''123'')]
     = \<lparr>requests = [\<lparr>rq_method = ''GET'', rq_url = ''http://api/customers/123'',
                      rq_headers = [], rq_params = Some [(''id'', ''123'')],
                      rq_json = None\<rparr>],
        result = Inr [\<lparr>tc_type = ''text'',
                       tc_text = ''Status: 200'' @ [CHR 0x0A, CHR 0x0A] @ ''{}''\<rparr>]\<rparr>
   \<and> handler demo_runtime ''http://api'' updateCustomer [(''id'', ''123''), (''name'', ''Ada'')]
     = \<lparr>requests = [\<lparr>rq_method = ''PUT'', rq_url = ''http://api/customers/123'',
                      rq_headers = [], rq_params = None,
                      rq_json = Some [(''id'', ''123''), (''name'', ''Ada'')]\<rparr>],
        result = Inr [\<lparr>tc_type = ''text'',
                       tc_text = ''Status: 200'' @ [CHR 0x0A, CHR 0x0A] @ ''{}''\<rparr>]\<rparr>"
  by code_simp

text \<open>
  Claim C4, amended. The handler issues one request to the base URL followed by the
  substituted path. For a GET it sends no body and passes the whole argument map, the
  arguments consumed by the path included, as query parameters; for a POST or a PUT it
  sends the whole argument map, the arguments consumed by the path included, as JSON body
  and appends no query parameter; for a DELETE it sends no body. What the handler does
  with the remaining arguments of a DELETE, and with a PATCH, is not part of the amended
  claim: there the handler departs from the documents of the repository.
\<close>

theorem handler_argument_placement:
  assumes "em_method (tool_endpoint_mapping tool) = HTTPMethod_value m"
  shows "(let url = base @ substitute_path (py_str rt) arguments
                            (em_path (tool_endpoint_mapping tool));
              headers = (if API_KEY rt \<noteq> []
                         then [(''Authorization'', ''Bearer '' @ API_KEY rt)] else [])
          in (m = GET \<longrightarrow>
                requests (handler rt base tool arguments)
                  = [\<lparr>rq_method = ''GET'', rq_url = url, rq_headers = headers,
                      rq_params = Some arguments, rq_json = None\<rparr>])
           \<and> (m = POST \<longrightarrow>
                requests (handler rt base tool arguments)
                  = [\<lparr>rq_method = ''POST'', rq_url = url, rq_headers = headers,
                      rq_params = None, rq_json = Some arguments\<rparr>])
           \<and> (m = PUT \<longrightarrow>
                requests (handler rt base tool arguments)
                  = [\<lparr>rq_method = ''PUT'', rq_url = url, rq_headers = headers,
                      rq_params = None, rq_json = Some arguments\<rparr>])
           \<and> (m = DELETE \<longrightarrow>
                (\<exists>params. requests (handler rt base tool arguments)
                  = [\<lparr>rq_method = ''DELETE'', rq_url = url, rq_headers = headers,
                      rq_params = params, rq_json = None\<rparr>])))"
  by (cases m)
    (simp_all add: handler_by_method [OF assms] Let_def requests_send split del: if_split)

theorem handler_argument_placement_witness:
  "em_method (tool_endpoint_mapping getCustomer) = HTTPMethod_value GET
   \<and> requests (handler demo_runtime ''http://api'' getCustomer [(''id'', ''123'')])
       = [\<lparr>rq_method = ''GET'', rq_url = ''http://api/customers/123'', rq_headers = [],
           rq_params = Some [(''id'', ''123'')], rq_json = None\<rparr>]
   \<and> em_method (tool_endpoint_mapping createOrder) = HTTPMethod_value POST
   \<and> requests (handler demo_runtime ''http://api'' createOrder
                  [(''customerId'', ''42''), (''note'', ''gift'')])
       = [\<lparr>rq_method = ''POST'', rq_url = ''http://api/orders'', rq_headers = [],
           rq_params = None,
           rq_json = Some [(''customerId'', ''42''), (''note'', ''gift'')]\<rparr>]
   \<and> em_method (tool_endpoint_mapping updateCustomer) = HTTPMethod_value PUT
   \<and> requests (handler demo_runtime ''http://api'' updateCustomer
                  [(''id'', ''123''), (''name'', ''Ada'')])
       = [\<lparr>rq_method = ''PUT'', rq_url = ''http://api/customers/123'', rq_headers = [],
           rq_params = None, rq_json = Some [(''id'', ''123''), (''name'', ''Ada'')]\<rparr>]
   \<and> em_method (tool_endpoint_mapping deleteCustomer) = HTTPMethod_value DELETE
   \<and> map rq_json (requests (handler demo_runtime ''http://api'' deleteCustomer
                              [(''id'', ''123'')]))
       = [None]"
proof -
  have g: "em_method (tool_endpoint_mapping getCustomer) = HTTPMethod_value GET"
    and p: "em_method (tool_endpoint_mapping createOrder) = HTTPMethod_value POST"
    and u: "em_method (tool_endpoint_mapping updateCustomer) = HTTPMethod_value PUT"
    and d: "em_method (tool_endpoint_mapping deleteCustomer) = HTTPMethod_value DELETE"
    by (simp_all add: getCustomer_def createOrder_def updateCustomer_def deleteCustomer_def)
  have url: "substitute_path (py_str demo_runtime) [(''id'', ''123'')]
                (em_path (tool_endpoint_mapping getCustomer)) = ''/customers/123''"
    "substitute_path (py_str demo_runtime) [(''customerId'', ''42''), (''note'', ''gift'')]
                (em_path (tool_endpoint_mapping createOrder)) = ''/orders''"
    "substitute_path (py_str demo_runtime) [(''id'', ''123''), (''name'', ''Ada'')]
                (em_path (tool_endpoint_mapping updateCustomer)) = ''/customers/123''"
    and key: "API_KEY demo_runtime = []"
    by code_simp+
  from handler_argument_placement [OF g, of "''http://api''" demo_runtime "[(''id'', ''123'')]"]
  have 1: "requests (handler demo_runtime ''http://api'' getCustomer [(''id'', ''123'')])
       = [\<lparr>rq_method = ''GET'', rq_url = ''http://api/customers/123'', rq_headers = [],
           rq_params = Some [(''id'', ''123'')], rq_json = None\<rparr>]"
    by (simp add: Let_def url key)
  from handler_argument_placement [OF p, of "''http://api''" demo_runtime
      "[(''customerId'', ''42''), (''note'', ''gift'')]"]
  have 2: "requests (handler demo_runtime ''http://api'' createOrder
                  [(''customerId'', ''42''), (''note'', ''gift'')])
       = [\<lparr>rq_method = ''POST'', rq_url = ''http://api/orders'', rq_headers = [],
           rq_params = None,
           rq_json = Some [(''customerId'', ''42''), (''note'', ''gift'')]\<rparr>]"
    by (simp add: Let_def url key)
  from handler_argument_placement [OF u, of "''http://api''" demo_runtime
      "[(''id'', ''123''), (''name'', ''Ada'')]"]
  have 3: "requests (handler demo_runtime ''http://api'' updateCustomer
                  [(''id'', ''123''), (''name'', ''Ada'')])
       = [\<lparr>rq_method = ''PUT'', rq_url = ''http://api/customers/123'', rq_headers = [],
           rq_params = None, rq_json = Some [(''id'', ''123''), (''name'', ''Ada'')]\<rparr>]"
    by (simp add: Let_def url key)
  from handler_argument_placement [OF d, of "''http://api''" demo_runtime "[(''id'', ''123'')]"]
  have 4: "map rq_json (requests (handler demo_runtime ''http://api'' deleteCustomer
                              [(''id'', ''123'')])) = [None]"
    by (auto simp: Let_def)
  show ?thesis
    by (intro conjI) (fact g p u d 1 2 3 4)+
qed


subsection \<open>Number of requests\<close>

text \<open>
  Claim C8, at a tool whose method is PATCH, a value of \<^typ>\<open>HTTPMethod\<close> that the parser
  keeps and the tool generator passes on: the claim wants exactly one request, and the
  handler, which has no branch for PATCH, answers with its unsupported-method text and
  issues none.
\<close>

theorem patch_issues_no_request:
  "em_method (tool_endpoint_mapping patchCustomer) = HTTPMethod_value PATCH
   \<and> handler demo_runtime ''http://api'' patchCustomer [(''id'', ''123'')]
       = \<lparr>requests = [],
          result = Inr [\<lparr>tc_type = ''text'', tc_text = ''Unsupported method: PATCH''\<rparr>]\<rparr>"
  by code_simp

text \<open>
  For the four other methods the handler issues exactly one request, whatever the
  arguments and whatever the client answers.
\<close>

lemma handler_one_request:
  assumes "em_method (tool_endpoint_mapping tool) = HTTPMethod_value m" and "m \<noteq> PATCH"
  shows "length (requests (handler rt base tool arguments)) = 1"
  using assms(2)
  by (cases m) (simp_all add: handler_by_method [OF assms(1)] Let_def requests_send)


subsection \<open>Required fields\<close>

text \<open>
  Claim C9, as stated, at \<^verbatim>\<open>POST /orders\<close>, whose schema requires \<open>customerId\<close>, called
  without it: the request is sent and its answer returned.
\<close>

theorem missing_required_field_is_sent:
  "''customerId'' \<in> set (is_required (tool_input_schema createOrder))
   \<and> ''customerId'' \<notin> fst ` set [(''note'', ''gift'')]
   \<and> handler demo_runtime ''http://api'' createOrder [(''note'', ''gift'')]
       = \<lparr>requests = [\<lparr>rq_method = ''POST'', rq_url = ''http://api/orders'',
                        rq_headers = [], rq_params = None,
                        rq_json = Some [(''note'', ''gift'')]\<rparr>],
          result = Inr [\<lparr>tc_type = ''text'',
                         tc_text = ''Status: 200'' @ [CHR 0x0A, CHR 0x0A] @ ''{}''\<rparr>]\<rparr>"
  by code_simp

text \<open>
  Claim C9, amended. The handler does not validate the argument map: it never reads the
  input schema of its tool, and with a required field missing it still sends the request
  (for GET, POST, PUT and DELETE) and returns what the client gives.
\<close>

theorem handler_ignores_input_schema:
  assumes "em_method (tool_endpoint_mapping tool) = HTTPMethod_value m" and "m \<noteq> PATCH"
    and "field \<in> set (is_required (tool_input_schema tool))"
    and "field \<notin> fst ` set arguments"
  shows "(\<exists>req. handler rt base tool arguments = send rt req)
       \<and> handler rt base (tool\<lparr>tool_input_schema := schema\<rparr>) arguments
           = handler rt base tool arguments"
proof -
  have "\<exists>req. handler rt base tool arguments = send rt req"
    using assms(2)
    by (cases m)
      (simp_all add: handler_by_method [OF assms(1)] Let_def split del: if_split, blast+)
  moreover have "handler rt base (tool\<lparr>tool_input_schema := schema\<rparr>) arguments
           = handler rt base tool arguments"
    by (simp add: handler_def)
  ultimately show ?thesis by simp
qed

theorem handler_ignores_input_schema_witness:
  "em_method (tool_endpoint_mapping getCustomer) = HTTPMethod_value GET \<and> GET \<noteq> PATCH
   \<and> ''id'' \<in> set (is_required (tool_input_schema getCustomer))
   \<and> ''id'' \<notin> fst ` set [(''verbose'', ''1'')]
   \<and> handler demo_runtime ''http://api''
        (getCustomer\<lparr>tool_input_schema :=
                       \<lparr>is_type = ''object'', is_properties = [], is_required = []\<rparr>\<rparr>)
        [(''verbose'', ''1'')]
       = handler demo_runtime ''http://api'' getCustomer [(''verbose'', ''1'')]"
proof -
  have h: "em_method (tool_endpoint_mapping getCustomer) = HTTPMethod_value GET"
    "GET \<noteq> PATCH"
    "''id'' \<in> set (is_required (tool_input_schema getCustomer))"
    "''id'' \<notin> fst ` set [(''verbose'', ''1'')]"
    by (simp_all add: getCustomer_def)
  from handler_ignores_input_schema [OF h, of demo_runtime "''http://api''"
      "\<lparr>is_type = ''object'', is_properties = [], is_required = []\<rparr>"]
  show ?thesis
    using h by simp
qed


subsection \<open>Duplicate tool names\<close>

text \<open>
  Claim C5, as stated, at two endpoints whose operation id is \<open>getUser\<close>: the tool model
  is generated with both tools, and the generated server answers a call of \<open>getUser\<close>.
\<close>

theorem duplicate_names_are_served:
  "map tool_name (tm_tools (generate_tools [get_user, get_person] ''crm'' ''http://api''))
     = [''getUser'', ''getUser'']
   \<and> call_tool demo_runtime (generate_tools [get_user, get_person] ''crm'' ''http://api'')
        ''getUser'' [(''id'', ''7'')]
       = \<lparr>requests = [\<lparr>rq_method = ''GET'', rq_url = ''http://api/people/7'',
                        rq_headers = [], rq_params = Some [(''id'', ''7'')],
                        rq_json = None\<rparr>],
          result = Inr [\<lparr>tc_type = ''text'',
                         tc_text = ''Status: 200'' @ [CHR 0x0A, CHR 0x0A] @ ''{}''\<rparr>]\<rparr>"
  by code_simp

text \<open>
  Claim C5, amended. A tool configuration with two tools of one name is not rejected for
  it: \<open>generate_tools\<close> checks no uniqueness and keeps the tool of every endpoint, and
  when the names of the configuration are Python identifiers and its texts plain, so that
  the generated server is the intended program, that server serves a call of the shared
  name through the handler of a tool of that name.
\<close>

theorem duplicate_tool_names_accepted:
  assumes "tool_name (endpoint_to_tool e1) = tool_name (endpoint_to_tool e2)"
    and "endpoints = es1 @ e1 # es2 @ e2 # es3"
    and "tool_model = generate_tools endpoints api_name base_url"
    and "server_loads tool_model" and "pasted_plainly tool_model"
  shows "tm_tools tool_model = map endpoint_to_tool endpoints
       \<and> (\<exists>bound \<in> set (tm_tools tool_model).
             tool_name bound = tool_name (endpoint_to_tool e1)
             \<and> call_tool rt tool_model (tool_name (endpoint_to_tool e1)) arguments
                 = handler rt base_url bound arguments)"
proof -
  have tools: "tm_tools tool_model = map endpoint_to_tool endpoints"
    by (simp add: assms(3) tm_tools_generate_tools)
  have base: "tm_base_url tool_model = base_url"
    by (simp add: assms(3) generate_tools_def)
  have "endpoint_to_tool e1 \<in> set (tm_tools tool_model)"
    by (simp add: tools assms(2))
  from call_tool_served [OF assms(4) this, of rt arguments] tools base show ?thesis
    by simp
qed

theorem duplicate_tool_names_accepted_witness:
  "tool_name (endpoint_to_tool get_user) = tool_name (endpoint_to_tool get_person)
   \<and> server_loads (generate_tools [get_user, get_person] ''crm'' ''http://api'')
   \<and> pasted_plainly (generate_tools [get_user, get_person] ''crm'' ''http://api'')
   \<and> length (tm_tools (generate_tools [get_user, get_person] ''crm'' ''http://api'')) = 2
   \<and> isl (result (call_tool demo_runtime
                     (generate_tools [get_user, get_person] ''crm'' ''http://api'')
                     ''getUser'' [(''id'', ''7'')])) = False"
proof -
  have h: "tool_name (endpoint_to_tool get_user) = tool_name (endpoint_to_tool get_person)"
    "[get_user, get_person] = [] @ get_user # [] @ get_person # []"
    "generate_tools [get_user, get_person] ''crm'' ''http://api''
       = generate_tools [get_user, get_person] ''crm'' ''http://api''"
    by (simp_all add: endpoint_to_tool_def get_user_def get_person_def or_else_def Let_def)
  have loads: "server_loads (generate_tools [get_user, get_person] ''crm'' ''http://api'')"
    and plain: "pasted_plainly (generate_tools [get_user, get_person] ''crm'' ''http://api'')"
    by code_simp+
  have served: "isl (result (call_tool demo_runtime
                     (generate_tools [get_user, get_person] ''crm'' ''http://api'')
                     ''getUser'' [(''id'', ''7'')])) = False"
    by code_simp
  from duplicate_tool_names_accepted [OF h loads plain, of demo_runtime "[(''id'', ''7'')]"]
  show ?thesis
    using h(1) loads plain served by simp
qed


subsection \<open>Missing path parameters\<close>

text \<open>
  Two facts about \<open>replace_from\<close>: an occurrence of a text \<open>P\<close> in which no occurrence
  of \<open>old\<close> begins is copied unchanged, and if moreover \<open>P\<close> never begins inside an
  occurrence of \<open>old\<close>, every text that contains \<open>P\<close> still contains it after the
  replacement.
\<close>

lemma replace_from_keeps_prefix:
  assumes "\<And>Q1 Q2 t. P = Q1 @ Q2 \<Longrightarrow> Q2 \<noteq> [] \<Longrightarrow> \<not> prefix old (Q2 @ t)"
  shows "P = lead @ trail \<Longrightarrow>
         replace_from old new (trail @ rest) = trail @ replace_from old new rest"
proof (induction trail arbitrary: lead)
  case Nil
  then show ?case by simp
next
  case (Cons q trail)
  have "\<not> prefix old ((q # trail) @ rest)"
    using assms [OF Cons.prems] by simp
  moreover have "P = (lead @ [q]) @ trail"
    using Cons.prems by simp
  ultimately show ?case
    using Cons.IH [of "lead @ [q]"] by simp
qed

lemma replace_from_at_match:
  "old \<noteq> [] \<Longrightarrow> replace_from old new (old @ rest) = new @ replace_from old new rest"
  by (cases old) simp_all

lemma replace_from_keeps_sublist:
  assumes old: "old \<noteq> []"
    and a: "\<And>Q1 Q2 t. P = Q1 @ Q2 \<Longrightarrow> Q2 \<noteq> [] \<Longrightarrow> \<not> prefix old (Q2 @ t)"
    and b: "\<And>O1 O2 t. old = O1 @ O2 \<Longrightarrow> O1 \<noteq> [] \<Longrightarrow> O2 \<noteq> [] \<Longrightarrow> \<not> prefix P (O2 @ t)"
  shows "sublist P (replace_from old new (zs @ P @ ss))"
proof (induction zs rule: length_induct)
  case (1 zs)
  show ?case
  proof (cases zs)
    case Nil
    have "replace_from old new (P @ ss) = P @ replace_from old new ss"
      using replace_from_keeps_prefix [where P = P and old = old and lead = "[]" and trail = P
          and rest = ss and new = new] a by simp
    with Nil show ?thesis by simp
  next
    case (Cons z zs')
    show ?thesis
    proof (cases "prefix old (zs @ P @ ss)")
      case False
      have "sublist P (replace_from old new (zs' @ P @ ss))"
        using "1.IH" Cons by simp
      then have "sublist P (z # replace_from old new (zs' @ P @ ss))"
        by (simp add: sublist_Cons_right)
      with False Cons show ?thesis by simp
    next
      case True
      then consider (inside) "prefix old zs"
        | (across) us where "old = zs @ us" "prefix us (P @ ss)"
        by (auto simp: prefix_append)
      then show ?thesis
      proof cases
        case inside
        then obtain zs'' where zs: "zs = old @ zs''"
          by (auto simp: prefix_def)
        have shorter: "length zs'' < length zs"
          using old zs by simp
        have "sublist P (replace_from old new (zs'' @ P @ ss))"
          using "1.IH" shorter by simp
        then have "sublist P (new @ replace_from old new (zs'' @ P @ ss))"
          by (metis sublist_append)
        moreover have "replace_from old new (zs @ P @ ss)
                        = new @ replace_from old new (zs'' @ P @ ss)"
          using replace_from_at_match [OF old, of new "zs'' @ P @ ss"] by (simp add: zs)
        ultimately show ?thesis by simp
      next
        case across
        show ?thesis
        proof (cases "us = []")
          case True
          with across have zs: "zs = old @ []" by simp
          have "sublist P (replace_from old new (P @ ss))"
            using replace_from_keeps_prefix [where P = P and old = old and lead = "[]" and trail = P
          and rest = ss and new = new] a by simp
          then have "sublist P (new @ replace_from old new (P @ ss))"
            by (metis sublist_append)
          moreover have "replace_from old new (zs @ P @ ss)
                        = new @ replace_from old new (P @ ss)"
            using replace_from_at_match [OF old, of new "P @ ss"] by (simp add: zs)
          ultimately show ?thesis by simp
        next
          case False
          from across(2) obtain t where "P @ ss = us @ t"
            by (auto simp: prefix_def)
          then have "prefix P (us @ t)"
            by (metis prefixI)
          moreover have "zs \<noteq> []" using Cons by simp
          ultimately show ?thesis
            using b [OF across(1) _ False, of t] by simp
        qed
      qed
    qed
  qed
qed

lemma closing_brace_decides:
  assumes "c \<notin> set k" and "c \<notin> set p" and "prefix (k @ [c]) (p @ c # t)"
  shows "k = p"
  using assms
proof (induction k arbitrary: p)
  case Nil
  then show ?case by (cases p) auto
next
  case (Cons x k)
  then show ?case by (cases p) auto
qed

lemma placeholder_not_inside:
  assumes "brace_free p" and "brace_free k" and "k \<noteq> p"
    and "placeholder p = lead @ trail" and "trail \<noteq> []"
  shows "\<not> prefix (placeholder k) (trail @ t)"
proof
  assume pre: "prefix (placeholder k) (trail @ t)"
  obtain x trail' where trail: "trail = x # trail'"
    using assms(5) by (cases trail) auto
  with pre have x: "x = CHR ''{''"
    by (simp add: placeholder_def)
  show False
  proof (cases lead)
    case Nil
    with assms(4) have "trail = placeholder p" by simp
    with pre have "prefix (k @ ''}'') (p @ CHR ''}'' # t)"
      by (simp add: placeholder_def)
    from closing_brace_decides [OF _ _ this] assms(1,2,3) show False
      by (simp add: brace_free_def)
  next
    case (Cons y lead')
    with assms(4) have "p @ ''}'' = lead' @ trail"
      by (simp add: placeholder_def)
    then have "set trail \<subseteq> set (p @ ''}'')"
      by (metis set_append sup_ge2)
    with trail x assms(1) show False
      by (auto simp: brace_free_def)
  qed
qed

lemma placeholder_not_across:
  assumes "brace_free k"
    and "placeholder k = lead @ trail" and "lead \<noteq> []" and "trail \<noteq> []"
  shows "\<not> prefix (placeholder p) (trail @ t)"
proof
  assume pre: "prefix (placeholder p) (trail @ t)"
  obtain x trail' where trail: "trail = x # trail'"
    using assms(4) by (cases trail) auto
  with pre have x: "x = CHR ''{''"
    by (simp add: placeholder_def)
  obtain y lead' where "lead = y # lead'"
    using assms(3) by (cases lead) auto
  with assms(2) have "k @ ''}'' = lead' @ trail"
    by (simp add: placeholder_def)
  then have "set trail \<subseteq> set (k @ ''}'')"
    by (metis set_append sup_ge2)
  with trail x assms(1) show False
    by (auto simp: brace_free_def)
qed

lemma replace_keeps_placeholder:
  assumes "brace_free p" and "brace_free k" and "k \<noteq> p"
    and "sublist (placeholder p) path"
  shows "sublist (placeholder p) (replace (placeholder k) new path)"
proof -
  from assms(4) obtain zs ss where path: "path = zs @ placeholder p @ ss"
    by (auto simp: sublist_def)
  have ne: "placeholder k \<noteq> []"
    by (simp add: placeholder_def)
  have "sublist (placeholder p) (replace_from (placeholder k) new (zs @ placeholder p @ ss))"
  proof (rule replace_from_keeps_sublist [OF ne])
    fix lead trail t
    assume "placeholder p = lead @ trail" "trail \<noteq> []"
    then show "\<not> prefix (placeholder k) (trail @ t)"
      using placeholder_not_inside [OF assms(1,2,3)] by blast
  next
    fix lead trail t
    assume "placeholder k = lead @ trail" "lead \<noteq> []" "trail \<noteq> []"
    then show "\<not> prefix (placeholder p) (trail @ t)"
      using placeholder_not_across [OF assms(2)] by blast
  qed
  with ne path show ?thesis
    by (simp add: replace_def)
qed

lemma substitute_path_keeps_placeholder:
  assumes "brace_free p" and "p \<notin> fst ` set arguments"
    and "\<forall>key \<in> fst ` set arguments. brace_free key"
    and "sublist (placeholder p) path"
  shows "sublist (placeholder p) (substitute_path str arguments path)"
  using assms(2,3,4)
proof (induction arguments arbitrary: path)
  case Nil
  then show ?case by (simp add: substitute_path_def)
next
  case (Cons a arguments)
  obtain key v where a: "a = (key, v)" by (cases a)
  have "sublist (placeholder p) (replace (placeholder key) (str v) path)"
    using Cons.prems a assms(1) by (intro replace_keeps_placeholder) auto
  from Cons.IH [OF _ _ this] Cons.prems(1,2) a show ?case
    by (simp add: substitute_path_def)
qed


text \<open>
  Claim C3, as stated, at \<^verbatim>\<open>GET /customers/{id}\<close> called with an empty argument map: no
  error is raised, and the request is sent with the placeholder in its URL.
\<close>

theorem missing_path_parameter_is_requested:
  "sublist (placeholder ''id'') (em_path (tool_endpoint_mapping getCustomer))
   \<and> ''id'' \<notin> fst ` set ([] :: (string \<times> string) list)
   \<and> handler demo_runtime ''http://api'' getCustomer []
       = \<lparr>requests = [\<lparr>rq_method = ''GET'', rq_url = ''http://api/customers/{id}'',
                        rq_headers = [], rq_params = Some [], rq_json = None\<rparr>],
          result = Inr [\<lparr>tc_type = ''text'',
                         tc_text = ''Status: 200'' @ [CHR 0x0A, CHR 0x0A] @ ''{}''\<rparr>]\<rparr>"
  by code_simp

text \<open>
  Claim C3, amended. For every tool with method GET, POST, PUT or DELETE whose path
  contains a placeholder \<open>{p}\<close> and every argument map that lacks the key \<open>p\<close> (no key
  containing a brace), the handler raises no argument error: the substitution runs over
  the supplied arguments only, the placeholder stays in the path, and the request is
  issued to the base URL followed by that path.
\<close>

theorem missing_path_parameter_left_in_path:
  assumes "em_method (tool_endpoint_mapping tool) = HTTPMethod_value m" and "m \<noteq> PATCH"
    and "sublist (placeholder p) (em_path (tool_endpoint_mapping tool))"
    and "p \<notin> fst ` set arguments"
    and "brace_free p" and "\<forall>key \<in> fst ` set arguments. brace_free key"
  shows "\<exists>req. handler rt base tool arguments = send rt req
           \<and> sublist (placeholder p) (rq_url req)"
proof -
  let ?path = "substitute_path (py_str rt) arguments (em_path (tool_endpoint_mapping tool))"
  have "sublist (placeholder p) ?path"
    using assms(5,4,6,3) by (rule substitute_path_keeps_placeholder)
  then have url: "sublist (placeholder p) (base @ ?path)"
    by (metis sublist_append)
  show ?thesis
    using assms(2) url
    by (cases m)
      (simp_all add: handler_by_method [OF assms(1)] Let_def split del: if_split,
        (rule exI, rule conjI, rule refl, simp)+)
qed

theorem missing_path_parameter_left_in_path_witness:
  "em_method (tool_endpoint_mapping getOrder) = HTTPMethod_value GET \<and> GET \<noteq> PATCH
   \<and> sublist (placeholder ''orderId'') (em_path (tool_endpoint_mapping getOrder))
   \<and> ''orderId'' \<notin> fst ` set [(''id'', ''42'')]
   \<and> brace_free ''orderId'' \<and> brace_free ''id''
   \<and> map rq_url (requests (handler demo_runtime ''http://api'' getOrder [(''id'', ''42'')]))
       = [''http://api/customers/42/orders/{orderId}'']"
proof -
  have h: "em_method (tool_endpoint_mapping getOrder) = HTTPMethod_value GET"
    "GET \<noteq> PATCH"
    "sublist (placeholder ''orderId'') (em_path (tool_endpoint_mapping getOrder))"
    "''orderId'' \<notin> fst ` set [(''id'', ''42'')]"
    "brace_free ''orderId''"
    by (simp add: getOrder_def, simp, code_simp, simp, simp add: brace_free_def)
  have keys: "\<forall>key \<in> fst ` set [(''id'', ''42'')]. brace_free key"
    and id: "brace_free ''id''"
    by (simp_all add: brace_free_def)
  have url: "map rq_url (requests (handler demo_runtime ''http://api'' getOrder
                                    [(''id'', ''42'')]))
               = [''http://api/customers/42/orders/{orderId}'']"
    by code_simp
  from missing_path_parameter_left_in_path [OF h keys, of demo_runtime "''http://api''"]
  show ?thesis
    using h id url by simp
qed


section \<open>Properties of the orchestration engine\<close>

declare reasoning.simps [simp del]

lemma tool_results_Nil: "tool_results [] = 0"
  by (simp add: tool_results_def)

lemma tool_results_Cons:
  "tool_results (x # xs) = (if is_tool_result x then 1 else 0) + tool_results xs"
  by (simp add: tool_results_def)

lemma tool_results_append: "tool_results (xs @ ys) = tool_results xs + tool_results ys"
  by (simp add: tool_results_def)

lemma tool_results_map_ToolResult:
  "tool_results (map (\<lambda>c. ToolResult (f c) (g c)) cs) = length cs"
  by (induction cs) (simp_all add: tool_results_def)

text \<open>
  A batch of calls in closed form: within the budget every call is executed; beyond it,
  the calls that still fit are executed and the run leaves for LIMIT\_EXCEEDED.
\<close>

lemma tool_executing_eq:
  "iteration_count run \<le> maximum \<Longrightarrow>
   tool_executing maximum registry invoke calls run =
     (if iteration_count run + length calls \<le> maximum
      then ToReasoning
             (run\<lparr>iteration_count := iteration_count run + length calls,
                  transcript := transcript run
                    @ map (\<lambda>c. ToolResult (call_id c) (execute_call registry invoke c))
                        calls\<rparr>)
      else ToLimitExceeded
             (run\<lparr>iteration_count := maximum + 1,
                  transcript := transcript run
                    @ map (\<lambda>c. ToolResult (call_id c) (execute_call registry invoke c))
                        (take (maximum - iteration_count run) calls)\<rparr>))"
proof (induction calls arbitrary: run)
  case Nil
  then show ?case by simp
next
  case (Cons c cs)
  show ?case
  proof (cases "iteration_count run < maximum")
    case True
    let ?r = "run\<lparr>iteration_count := iteration_count run + 1,
                   transcript := transcript run
                     @ [ToolResult (call_id c) (execute_call registry invoke c)]\<rparr>"
    have le: "iteration_count ?r \<le> maximum"
      using True by simp
    have step: "tool_executing maximum registry invoke (c # cs) run
                  = tool_executing maximum registry invoke cs ?r"
      using True by (simp add: Let_def)
    have "maximum - iteration_count run = Suc (maximum - Suc (iteration_count run))"
      using True by simp
    then have tk: "take (maximum - iteration_count run) (c # cs)
                     = c # take (maximum - Suc (iteration_count run)) cs"
      by simp
    show ?thesis
      unfolding step Cons.IH [OF le] tk by simp
  next
    case False
    with Cons.prems have "iteration_count run = maximum"
      by simp
    then show ?thesis
      by (simp add: Let_def)
  qed
qed

lemma reasoning_step:
  assumes "model (transcript run) = ToolCalls call calls"
    and "iteration_count run + length (call # calls) \<le> maximum"
  shows "reasoning maximum model registry invoke run
       = reasoning maximum model registry invoke
           (run\<lparr>iteration_count := iteration_count run + length (call # calls),
                transcript := transcript run @ ToolRequest (call # calls)
                  # map (\<lambda>c. ToolResult (call_id c) (execute_call registry invoke c))
                      (call # calls)\<rparr>)"
proof -
  let ?r = "run\<lparr>transcript := transcript run @ [ToolRequest (call # calls)]\<rparr>"
  have le: "iteration_count ?r \<le> maximum"
    using assms(2) by simp
  have "tool_executing maximum registry invoke (call # calls) ?r
          = ToReasoning
              (run\<lparr>iteration_count := iteration_count run + length (call # calls),
                transcript := transcript run @ ToolRequest (call # calls)
                  # map (\<lambda>c. ToolResult (call_id c) (execute_call registry invoke c))
                      (call # calls)\<rparr>)"
    using assms(2) by (simp add: tool_executing_eq [OF le] del: tool_executing.simps list.map)
  then show ?thesis
    by (simp add: reasoning.simps [of maximum model registry invoke run] assms(1)
        del: tool_executing.simps list.map)
qed

text \<open>
  Whatever the tools return, a run ends in FAILED only when the reasoning service fails.
\<close>

lemma never_failed:
  "(\<And>turns e. model turns \<noteq> ServiceError e) \<Longrightarrow>
   terminal_state (fst (reasoning maximum model registry invoke run)) \<noteq> Some FAILED"
proof (induction maximum model registry invoke run rule: reasoning.induct)
  case (1 maximum model registry invoke run)
  show ?case
  proof (cases "model (transcript run)")
    case (ServiceError e)
    with "1.prems" show ?thesis by simp
  next
    case (Answer a)
    then show ?thesis
      by (simp add: reasoning.simps [of maximum model registry invoke run])
  next
    case (ToolCalls call calls)
    let ?r = "run\<lparr>transcript := transcript run @ [ToolRequest (call # calls)]\<rparr>"
    show ?thesis
    proof (cases "tool_executing maximum registry invoke (call # calls) ?r")
      case (ToReasoning run')
      from "1.IH" [OF ToolCalls ToReasoning "1.prems"] show ?thesis
        by (simp add: reasoning.simps [of maximum model registry invoke run] ToolCalls
            ToReasoning del: tool_executing.simps)
    next
      case (ToLimitExceeded run')
      then show ?thesis
        by (simp add: reasoning.simps [of maximum model registry invoke run] ToolCalls
            del: tool_executing.simps)
    qed
  qed
qed


subsection \<open>Counting per invocation\<close>

text \<open>
  Claim C2. The counter is incremented, and compared with the maximum, once for every
  requested invocation: a batch of N calls that fits the budget is executed whole and
  raises the counter by N; a batch that does not fit is cut at the limit, only the calls
  within the budget being executed, and the run leaves for LIMIT\_EXCEEDED. The
  hypothesis is the invariant of the loop, true at INIT.
\<close>

theorem counted_per_invocation:
  assumes "iteration_count run \<le> maximum"
  shows "(iteration_count run + length calls \<le> maximum \<longrightarrow>
           (\<exists>run'. tool_executing maximum registry invoke calls run = ToReasoning run'
              \<and> iteration_count run' = iteration_count run + length calls
              \<and> tool_results (transcript run')
                  = tool_results (transcript run) + length calls))
       \<and> (maximum < iteration_count run + length calls \<longrightarrow>
           (\<exists>run'. tool_executing maximum registry invoke calls run = ToLimitExceeded run'
              \<and> tool_results (transcript run')
                  = tool_results (transcript run) + (maximum - iteration_count run)))"
  using assms
  by (simp add: tool_executing_eq tool_results_append tool_results_map_ToolResult
      del: tool_executing.simps)

theorem counted_per_invocation_witness:
  "iteration_count run_start \<le> max_iterations
   \<and> iteration_count run_start + length [call_getCustomer, call_listOrders, call_fooBar]
       \<le> max_iterations
   \<and> (\<exists>run'. tool_executing max_iterations demo_registry ok_invoke
                [call_getCustomer, call_listOrders, call_fooBar] run_start = ToReasoning run'
         \<and> iteration_count run' = 3)
   \<and> max_iterations < iteration_count run_start + length (replicate 25 call_getCustomer)
   \<and> (\<exists>run'. tool_executing max_iterations demo_registry ok_invoke
                (replicate 25 call_getCustomer) run_start = ToLimitExceeded run'
         \<and> tool_results (transcript run') = 20)
   \<and> terminal_state (fst (orchestrate max_iterations (batching_model 30) demo_registry
                            ok_invoke customer_orders [(''id'', ''42'')]))
       = Some LIMIT_EXCEEDED
   \<and> tool_results (transcript (fst (orchestrate max_iterations (batching_model 30)
                                      demo_registry ok_invoke customer_orders
                                      [(''id'', ''42'')]))) = 20"
proof -
  have batch: "terminal_state (fst (orchestrate max_iterations (batching_model 30)
                 demo_registry ok_invoke customer_orders [(''id'', ''42'')]))
               = Some LIMIT_EXCEEDED"
    "tool_results (transcript (fst (orchestrate max_iterations (batching_model 30)
                 demo_registry ok_invoke customer_orders [(''id'', ''42'')]))) = 20"
    by code_simp+
  have h: "iteration_count run_start \<le> max_iterations"
    and fits: "iteration_count run_start + length [call_getCustomer, call_listOrders, call_fooBar]
                 \<le> max_iterations"
    and over: "max_iterations < iteration_count run_start + length (replicate 25 call_getCustomer)"
    and start: "iteration_count run_start = 0" "tool_results (transcript run_start) = 0"
    and twenty: "max_iterations = 20"
    by code_simp+
  from counted_per_invocation [OF h, of "[call_getCustomer, call_listOrders, call_fooBar]"
      demo_registry ok_invoke] fits start
  have a: "\<exists>run'. tool_executing max_iterations demo_registry ok_invoke
                [call_getCustomer, call_listOrders, call_fooBar] run_start = ToReasoning run'
         \<and> iteration_count run' = 3"
    by (auto simp del: tool_executing.simps)
  from counted_per_invocation [OF h, of "replicate 25 call_getCustomer" demo_registry ok_invoke]
    over start twenty
  have b: "\<exists>run'. tool_executing max_iterations demo_registry ok_invoke
                (replicate 25 call_getCustomer) run_start = ToLimitExceeded run'
         \<and> tool_results (transcript run') = 20"
    by (auto simp del: tool_executing.simps replicate.simps)
  show ?thesis
    by (intro conjI) (fact h fits over a b batch)+
qed


subsection \<open>Unknown tools\<close>

text \<open>
  Claim C6, as stated, at a reasoning model that asks for 26 calls in one turn, the last
  of them for the unknown tool \<open>fooBar\<close>: the iteration limit is met before that call is
  looked up, no error result is appended for it, and the run is aborted in
  LIMIT\_EXCEEDED.
\<close>

theorem unknown_tool_beyond_the_limit:
  "lookup demo_registry (call_name call_fooBar) = None
   \<and> overflowing_model (transcript run_start)
       = ToolCalls call_getCustomer (replicate 24 call_listOrders @ [call_fooBar])
   \<and> terminal_state (fst (reasoning max_iterations overflowing_model demo_registry
                            ok_invoke run_start)) = Some LIMIT_EXCEEDED
   \<and> ToolResult (call_id call_fooBar) (UnknownTool (call_name call_fooBar))
       \<notin> set (transcript (fst (reasoning max_iterations overflowing_model demo_registry
                                  ok_invoke run_start)))"
  by code_simp

text \<open>
  Claim C6, amended. Whenever the reasoning model requests tool calls that fit the
  remaining iteration budget, whatever their number and whichever of their names are
  unknown, the engine appends for every call of the request, in order, its result turn: an
  error result for a name that is not in the registry, the result of the invoker for a
  registered tool. The run is then back in REASONING, not aborted, with the counter raised
  by the number of calls, and the same holds of every later request. Only the iteration
  limit ends a run in TOOL\_EXECUTING.
\<close>

theorem unknown_tool_answered_within_budget:
  assumes "model (transcript run) = ToolCalls call calls"
    and "iteration_count run + length (call # calls) \<le> maximum"
  shows "tool_executing maximum registry invoke (call # calls)
           (run\<lparr>transcript := transcript run @ [ToolRequest (call # calls)]\<rparr>)
         = ToReasoning
             (run\<lparr>iteration_count := iteration_count run + length (call # calls),
                  transcript := transcript run @ ToolRequest (call # calls)
                    # map (\<lambda>c. ToolResult (call_id c)
                             (case lookup registry (call_name c) of
                                None \<Rightarrow> UnknownTool (call_name c)
                              | Some descriptor \<Rightarrow>
                                  Invoked (invoke descriptor (call_arguments c))))
                        (call # calls)\<rparr>)
       \<and> reasoning maximum model registry invoke run
         = reasoning maximum model registry invoke
             (run\<lparr>iteration_count := iteration_count run + length (call # calls),
                  transcript := transcript run @ ToolRequest (call # calls)
                    # map (\<lambda>c. ToolResult (call_id c)
                             (case lookup registry (call_name c) of
                                None \<Rightarrow> UnknownTool (call_name c)
                              | Some descriptor \<Rightarrow>
                                  Invoked (invoke descriptor (call_arguments c))))
                        (call # calls)\<rparr>)"
proof -
  let ?r = "run\<lparr>transcript := transcript run @ [ToolRequest (call # calls)]\<rparr>"
  have results: "execute_call registry invoke
                   = (\<lambda>c. case lookup registry (call_name c) of
                             None \<Rightarrow> UnknownTool (call_name c)
                           | Some descriptor \<Rightarrow> Invoked (invoke descriptor (call_arguments c)))"
    by (rule ext) (simp add: execute_call_def)
  have le: "iteration_count ?r \<le> maximum"
    using assms(2) by simp
  have "tool_executing maximum registry invoke (call # calls) ?r
          = ToReasoning
              (run\<lparr>iteration_count := iteration_count run + length (call # calls),
                transcript := transcript run @ ToolRequest (call # calls)
                  # map (\<lambda>c. ToolResult (call_id c) (execute_call registry invoke c))
                      (call # calls)\<rparr>)"
    using assms(2) by (simp add: tool_executing_eq [OF le] del: tool_executing.simps list.map)
  moreover note reasoning_step [where model = model and run = run and call = call
      and calls = calls and maximum = maximum and registry = registry and invoke = invoke,
      OF assms]
  ultimately show ?thesis
    unfolding results by (intro conjI)
qed

theorem unknown_tool_answered_within_budget_witness:
  "mixed_model (transcript run_start) = ToolCalls call_fooBar [call_getCustomer]
   \<and> iteration_count run_start + length [call_fooBar, call_getCustomer] \<le> max_iterations
   \<and> lookup demo_registry (call_name call_fooBar) = None
   \<and> lookup demo_registry (call_name call_getCustomer) = Some getCustomer
   \<and> reasoning max_iterations mixed_model demo_registry broken_invoke run_start
       = reasoning max_iterations mixed_model demo_registry broken_invoke run_after_batch
   \<and> fst (reasoning max_iterations mixed_model demo_registry broken_invoke run_start)
       = run_after_batch\<lparr>transcript := transcript run_after_batch @ [FinalAnswer ''done''],
                         terminal_state := Some DONE\<rparr>
   \<and> adapting_model (transcript run_start) = ToolCalls call_fooBar []
   \<and> adapting_model (transcript run_after_unknown) = ToolCalls call_getCustomer []
   \<and> reasoning max_iterations adapting_model demo_registry broken_invoke run_start
       = reasoning max_iterations adapting_model demo_registry broken_invoke run_after_unknown
   \<and> reasoning max_iterations adapting_model demo_registry broken_invoke run_after_unknown
       = reasoning max_iterations adapting_model demo_registry broken_invoke run_after_valid
   \<and> fst (reasoning max_iterations adapting_model demo_registry broken_invoke run_start)
       = run_after_valid\<lparr>transcript := transcript run_after_valid @ [FinalAnswer ''done''],
                         terminal_state := Some DONE\<rparr>"
proof -
  have h: "mixed_model (transcript run_start) = ToolCalls call_fooBar [call_getCustomer]"
    "iteration_count run_start + length [call_fooBar, call_getCustomer] \<le> max_iterations"
    by code_simp+
  have h1: "adapting_model (transcript run_start) = ToolCalls call_fooBar []"
    "iteration_count run_start + length [call_fooBar] \<le> max_iterations"
    by code_simp+
  have h2: "adapting_model (transcript run_after_unknown) = ToolCalls call_getCustomer []"
    "iteration_count run_after_unknown + length [call_getCustomer] \<le> max_iterations"
    by code_simp+
  have names: "lookup demo_registry (call_name call_fooBar) = None"
    "lookup demo_registry (call_name call_getCustomer) = Some getCustomer"
    by code_simp+
  have after: "run_start\<lparr>iteration_count := iteration_count run_start
                              + length [call_fooBar, call_getCustomer],
                  transcript := transcript run_start
                    @ ToolRequest [call_fooBar, call_getCustomer]
                    # map (\<lambda>c. ToolResult (call_id c)
                             (case lookup demo_registry (call_name c) of
                                None \<Rightarrow> UnknownTool (call_name c)
                              | Some descriptor \<Rightarrow>
                                  Invoked (broken_invoke descriptor (call_arguments c))))
                        [call_fooBar, call_getCustomer]\<rparr>
               = run_after_batch"
    and after1: "run_start\<lparr>iteration_count := iteration_count run_start
                              + length [call_fooBar],
                  transcript := transcript run_start
                    @ ToolRequest [call_fooBar]
                    # map (\<lambda>c. ToolResult (call_id c)
                             (case lookup demo_registry (call_name c) of
                                None \<Rightarrow> UnknownTool (call_name c)
                              | Some descriptor \<Rightarrow>
                                  Invoked (broken_invoke descriptor (call_arguments c))))
                        [call_fooBar]\<rparr>
               = run_after_unknown"
    and after2: "run_after_unknown\<lparr>iteration_count := iteration_count run_after_unknown
                              + length [call_getCustomer],
                  transcript := transcript run_after_unknown
                    @ ToolRequest [call_getCustomer]
                    # map (\<lambda>c. ToolResult (call_id c)
                             (case lookup demo_registry (call_name c) of
                                None \<Rightarrow> UnknownTool (call_name c)
                              | Some descriptor \<Rightarrow>
                                  Invoked (broken_invoke descriptor (call_arguments c))))
                        [call_getCustomer]\<rparr>
               = run_after_valid"
    by (simp_all add: run_after_batch_def run_after_unknown_def run_after_valid_def names
        run_start_def init_def broken_invoke_def)
  have final: "fst (reasoning max_iterations mixed_model demo_registry broken_invoke run_start)
       = run_after_batch\<lparr>transcript := transcript run_after_batch @ [FinalAnswer ''done''],
                         terminal_state := Some DONE\<rparr>"
    "fst (reasoning max_iterations adapting_model demo_registry broken_invoke run_start)
       = run_after_valid\<lparr>transcript := transcript run_after_valid @ [FinalAnswer ''done''],
                         terminal_state := Some DONE\<rparr>"
    by code_simp+
  from unknown_tool_answered_within_budget [where model = mixed_model and run = run_start
      and call = call_fooBar and calls = "[call_getCustomer]" and maximum = max_iterations
      and registry = demo_registry and invoke = broken_invoke, OF h]
  have a: "reasoning max_iterations mixed_model demo_registry broken_invoke run_start
       = reasoning max_iterations mixed_model demo_registry broken_invoke run_after_batch"
    unfolding after by (rule conjunct2)
  from unknown_tool_answered_within_budget [where model = adapting_model and run = run_start
      and call = call_fooBar and calls = "[]" and maximum = max_iterations
      and registry = demo_registry and invoke = broken_invoke, OF h1]
  have b: "reasoning max_iterations adapting_model demo_registry broken_invoke run_start
       = reasoning max_iterations adapting_model demo_registry broken_invoke run_after_unknown"
    unfolding after1 by (rule conjunct2)
  from unknown_tool_answered_within_budget [where model = adapting_model
      and run = run_after_unknown and call = call_getCustomer and calls = "[]"
      and maximum = max_iterations and registry = demo_registry and invoke = broken_invoke,
      OF h2]
  have c: "reasoning max_iterations adapting_model demo_registry broken_invoke
             run_after_unknown
       = reasoning max_iterations adapting_model demo_registry broken_invoke run_after_valid"
    unfolding after2 by (rule conjunct2)
  show ?thesis
    by (intro conjI) (fact h names a b c final h1(1) h2(1))+
qed


subsection \<open>Failing targets\<close>

text \<open>
  Claim C7, at a target that cannot be reached: the claim wants the failure returned as
  a normal result. The HTTP client raises, the handler has no exception handling, and the
  call ends with the exception instead of a status and a body.
\<close>

theorem unreachable_target_raises:
  "handler offline_runtime ''http://api'' getCustomer [(''id'', ''123'')]
     = \<lparr>requests = [\<lparr>rq_method = ''GET'', rq_url = ''http://api/customers/123'',
                      rq_headers = [], rq_params = Some [(''id'', ''123'')],
                      rq_json = None\<rparr>],
        result = Inl (ClientError ''ConnectError'')\<rparr>"
  by code_simp

text \<open>
  When the target answers, the handler returns the status and the body as text, whatever
  the status code.
\<close>

lemma handler_returns_status:
  assumes "em_method (tool_endpoint_mapping tool) = HTTPMethod_value m" and "m \<noteq> PATCH"
    and "\<And>req. client rt req = Inr \<lparr>status_code = code, resp_text = body\<rparr>"
  shows "result (handler rt base tool arguments)
           = Inr [\<lparr>tc_type = ''text'',
                   tc_text = ''Status: '' @ str_nat code @ [CHR 0x0A, CHR 0x0A] @ body\<rparr>]"
  using assms(2)
  by (cases m) (simp_all add: handler_by_method [OF assms(1)] Let_def send_def assms(3))

end
